theory Spec2Isabelle
  imports Complex_Main "HOL-Library.Word"
begin

section \<open>JavaScript strings\<close>

text \<open>
  A JavaScript string is a sequence of 16-bit code units. Literals of the source are
  ASCII and are written through \<open>js\<close>.
\<close>

type_synonym codeunit = "16 word"
type_synonym jsstring = "codeunit list"

definition js :: "string \<Rightarrow> jsstring" where
  "js s = map of_char s"

text \<open>
  \<^verbatim>\<open>String.prototype.trim\<close> strips the code units of WhiteSpace and LineTerminator
  from both ends.
\<close>

definition isWhiteSpace :: "codeunit \<Rightarrow> bool" where
  "isWhiteSpace c =
     (c = 0x09 \<or> c = 0x0A \<or> c = 0x0B \<or> c = 0x0C \<or> c = 0x0D \<or> c = 0x20 \<or> c = 0xA0
      \<or> c = 0x1680 \<or> (0x2000 \<le> c \<and> c \<le> 0x200A) \<or> c = 0x2028 \<or> c = 0x2029
      \<or> c = 0x202F \<or> c = 0x205F \<or> c = 0x3000 \<or> c = 0xFEFF)"

definition trim :: "jsstring \<Rightarrow> jsstring" where
  "trim s = rev (dropWhile isWhiteSpace (rev (dropWhile isWhiteSpace s)))"

section \<open>Regular expressions\<close>

text \<open>
  The fragment of the regular-expression language that the literals of
  \<^verbatim>\<open>SENSITIVE_PATTERNS\<close> use: a sequence of terms, each a word-boundary assertion
  \<^verbatim>\<open>\b\<close>, a single atom (a pattern character or a character class), or an atom under
  the quantifier \<^verbatim>\<open>{n,}\<close>; and the flag \<^verbatim>\<open>i\<close>.
\<close>

datatype atom = PatternChar codeunit | CharClass "(codeunit \<times> codeunit) list"

datatype regex_term = WordBoundary | Atom atom | AtLeast nat atom

record regexp =
  disjunction :: "regex_term list"
  ignoreCase :: bool

text \<open>
  Canonicalize of a pattern without the flag \<^verbatim>\<open>u\<close>: with \<^verbatim>\<open>i\<close> a code unit is
  upper-cased, and a code unit of 128 or more is never mapped below 128. Only the ASCII
  letters are modelled as changing; the other code units are left as they are, which
  agrees with the engine on every comparison against an ASCII code unit.
\<close>

definition canonicalize :: "bool \<Rightarrow> codeunit \<Rightarrow> codeunit" where
  "canonicalize ic c = (if ic \<and> 0x61 \<le> c \<and> c \<le> 0x7A then c - 0x20 else c)"

definition inRanges :: "(codeunit \<times> codeunit) list \<Rightarrow> codeunit \<Rightarrow> bool" where
  "inRanges rs c = list_ex (\<lambda>(lo, hi). lo \<le> c \<and> c \<le> hi) rs"

definition isAsciiLetter :: "codeunit \<Rightarrow> bool" where
  "isAsciiLetter c = ((0x41 \<le> c \<and> c \<le> 0x5A) \<or> (0x61 \<le> c \<and> c \<le> 0x7A))"

definition swapCase :: "codeunit \<Rightarrow> codeunit" where
  "swapCase c = (if 0x61 \<le> c \<and> c \<le> 0x7A then c - 0x20 else c + 0x20)"

fun atomMatches :: "bool \<Rightarrow> atom \<Rightarrow> codeunit \<Rightarrow> bool" where
  "atomMatches ic (PatternChar p) c = (canonicalize ic p = canonicalize ic c)"
| "atomMatches ic (CharClass rs) c =
     (inRanges rs c \<or> (ic \<and> isAsciiLetter c \<and> inRanges rs (swapCase c)))"

text \<open>\<^verbatim>\<open>\w\<close>: the letters, the digits and the underscore.\<close>

definition isWordChar :: "codeunit \<Rightarrow> bool" where
  "isWordChar c =
     ((0x61 \<le> c \<and> c \<le> 0x7A) \<or> (0x41 \<le> c \<and> c \<le> 0x5A) \<or> (0x30 \<le> c \<and> c \<le> 0x39) \<or> c = 0x5F)"

text \<open>
  IsWordChar at an index: false before the first and after the last code unit. The index
  \<open>e\<close> is the position between code units \<open>e - 1\<close> and \<open>e\<close>; \<open>wordCharBefore\<close> looks at
  \<open>e - 1\<close> and \<open>wordCharAt\<close> at \<open>e\<close>.
\<close>

definition wordCharAt :: "jsstring \<Rightarrow> nat \<Rightarrow> bool" where
  "wordCharAt s e = (e < length s \<and> isWordChar (s ! e))"

definition wordCharBefore :: "jsstring \<Rightarrow> nat \<Rightarrow> bool" where
  "wordCharBefore s e = (0 < e \<and> wordCharAt s (e - 1))"

definition atWordBoundary :: "jsstring \<Rightarrow> nat \<Rightarrow> bool" where
  "atWordBoundary s e = (wordCharBefore s e \<noteq> wordCharAt s e)"

text \<open>
  \<open>matchesFrom ic ts s e\<close>: the terms \<open>ts\<close> match some stretch of \<open>s\<close> that starts at
  index \<open>e\<close>. The engine backtracks over every length the quantifier allows, so the
  quantified atom is tried with every count from \<open>n\<close> up to the rest of the input.
\<close>

definition repeatMatches :: "bool \<Rightarrow> atom \<Rightarrow> jsstring \<Rightarrow> nat \<Rightarrow> nat \<Rightarrow> bool" where
  "repeatMatches ic a s e k =
     (e + k \<le> length s \<and> list_all (atomMatches ic a) (take k (drop e s)))"

fun matchesFrom :: "bool \<Rightarrow> regex_term list \<Rightarrow> jsstring \<Rightarrow> nat \<Rightarrow> bool" where
  "matchesFrom ic [] s e = True"
| "matchesFrom ic (WordBoundary # ts) s e = (atWordBoundary s e \<and> matchesFrom ic ts s e)"
| "matchesFrom ic (Atom a # ts) s e =
     (e < length s \<and> atomMatches ic a (s ! e) \<and> matchesFrom ic ts s (Suc e))"
| "matchesFrom ic (AtLeast n a # ts) s e =
     list_ex (\<lambda>k. repeatMatches ic a s e k \<and> matchesFrom ic ts s (e + k))
       [n ..< Suc (length s - e)]"

text \<open>
  \<^verbatim>\<open>RegExp.prototype.test\<close> of a pattern without the flags \<^verbatim>\<open>g\<close> and \<^verbatim>\<open>y\<close>: a match
  is looked for at every start index, from 0.
\<close>

definition RegExp_test :: "regexp \<Rightarrow> jsstring \<Rightarrow> bool" where
  "RegExp_test re s =
     list_ex (matchesFrom (ignoreCase re) (disjunction re) s) [0 ..< Suc (length s)]"

definition wholeWord :: "string \<Rightarrow> regex_term list" where
  "wholeWord w = WordBoundary # map (\<lambda>c. Atom (PatternChar (of_char c))) w @ [WordBoundary]"

text \<open>
  \<^verbatim>\<open>
  const SENSITIVE_PATTERNS = [
    /\b[A-Za-z0-9-_]{20,}\b/,
    /\bpassword\b/i,
    /\bsecret\b/i,
    /\btoken\b/i,
    /\bkey\b/i,
  ];
  \<close>
  In the class, \<^verbatim>\<open>A-Z\<close>, \<^verbatim>\<open>a-z\<close> and \<^verbatim>\<open>0-9\<close> are ranges and the \<^verbatim>\<open>-\<close> and
  \<^verbatim>\<open>_\<close> after them are single members.
\<close>

definition tokenClass :: "(codeunit \<times> codeunit) list" where
  "tokenClass = [(0x41, 0x5A), (0x61, 0x7A), (0x30, 0x39), (0x2D, 0x2D), (0x5F, 0x5F)]"

definition SENSITIVE_PATTERNS :: "regexp list" where
  "SENSITIVE_PATTERNS =
     [\<lparr>disjunction = [WordBoundary, AtLeast 20 (CharClass tokenClass), WordBoundary],
        ignoreCase = False\<rparr>,
      \<lparr>disjunction = wholeWord ''password'', ignoreCase = True\<rparr>,
      \<lparr>disjunction = wholeWord ''secret'', ignoreCase = True\<rparr>,
      \<lparr>disjunction = wholeWord ''token'', ignoreCase = True\<rparr>,
      \<lparr>disjunction = wholeWord ''key'', ignoreCase = True\<rparr>]"

section \<open>The sensitivity check\<close>

text \<open>
  \<^verbatim>\<open>new RegExp(patternStr)\<close> is the engine's compiler: it throws a SyntaxError on a
  source that is not a pattern, and gives a pattern to \<^verbatim>\<open>test\<close> otherwise. The compiler
  is a parameter of the model: \<open>Inl\<close> is the exception, \<open>Inr\<close> the \<^verbatim>\<open>test\<close> of the
  compiled pattern.
\<close>

datatype js_error = SyntaxError | IOError

type_synonym regexp_compiler = "jsstring \<Rightarrow> js_error + (jsstring \<Rightarrow> bool)"

text \<open>The first loop of \<^verbatim>\<open>isSensitiveCommand\<close>, over the built-in patterns.\<close>

fun testBuiltin :: "regexp list \<Rightarrow> jsstring \<Rightarrow> bool" where
  "testBuiltin [] command = False"
| "testBuiltin (pattern # rest) command =
     (if RegExp_test pattern command then True else testBuiltin rest command)"

text \<open>
  The second loop, over the patterns of the config: the \<^verbatim>\<open>try\<close> holds the compilation
  and the test, the empty \<^verbatim>\<open>catch\<close> goes on with the next pattern.
\<close>

fun testAdditional :: "regexp_compiler \<Rightarrow> jsstring list \<Rightarrow> jsstring \<Rightarrow> bool" where
  "testAdditional new_RegExp [] command = False"
| "testAdditional new_RegExp (patternStr # rest) command =
     (case new_RegExp patternStr of
        Inl error \<Rightarrow> testAdditional new_RegExp rest command
      | Inr pattern \<Rightarrow>
          if pattern command then True else testAdditional new_RegExp rest command)"

definition isSensitiveCommand :: "regexp_compiler \<Rightarrow> jsstring \<Rightarrow> jsstring list \<Rightarrow> bool" where
  "isSensitiveCommand new_RegExp command additionalPatterns =
     (if testBuiltin SENSITIVE_PATTERNS command then True
      else testAdditional new_RegExp additionalPatterns command)"

section \<open>JSON values and \<^verbatim>\<open>JSON.parse\<close>\<close>

text \<open>
  The values that \<^verbatim>\<open>JSON.parse\<close> builds. An object is the list of its members in the
  order of the text. A number carries the exact value of its decimal literal; rounding to
  a double is not modelled (an integer below \<open>2 ^ 53\<close> in magnitude is its own double).
\<close>

datatype json =
    JNull
  | JBool bool
  | JNumber rat
  | JString jsstring
  | JArray "json list"
  | JObject "(jsstring \<times> json) list"

datatype token =
    LBracket | RBracket | LBrace | RBrace | Comma | Colon
  | Literal json
  | StringToken jsstring

definition isJsonWhiteSpace :: "codeunit \<Rightarrow> bool" where
  "isJsonWhiteSpace c = (c = 0x09 \<or> c = 0x0A \<or> c = 0x0D \<or> c = 0x20)"

definition isDigit :: "codeunit \<Rightarrow> bool" where
  "isDigit c = (0x30 \<le> c \<and> c \<le> 0x39)"

definition hexValue :: "codeunit \<Rightarrow> nat option" where
  "hexValue c =
     (if 0x30 \<le> c \<and> c \<le> 0x39 then Some (unat c - 0x30)
      else if 0x61 \<le> c \<and> c \<le> 0x66 then Some (unat c - 0x57)
      else if 0x41 \<le> c \<and> c \<le> 0x46 then Some (unat c - 0x37)
      else None)"

text \<open>The four hexadecimal digits after \<^verbatim>\<open>\u\<close>.\<close>

fun unicodeEscapeValue :: "jsstring \<Rightarrow> codeunit option" where
  "unicodeEscapeValue (a # b # c # d # rest) =
     (case (hexValue a, hexValue b, hexValue c, hexValue d) of
        (Some h1, Some h2, Some h3, Some h4) \<Rightarrow>
          Some (of_nat (((h1 * 16 + h2) * 16 + h3) * 16 + h4))
      | _ \<Rightarrow> None)"
| "unicodeEscapeValue _ = None"

definition simpleEscape :: "codeunit \<Rightarrow> codeunit option" where
  "simpleEscape e =
     (if e = 0x22 then Some 0x22
      else if e = 0x2F then Some 0x2F
      else if e = 0x5C then Some 0x5C
      else if e = 0x62 then Some 0x08
      else if e = 0x66 then Some 0x0C
      else if e = 0x6E then Some 0x0A
      else if e = 0x72 then Some 0x0D
      else if e = 0x74 then Some 0x09
      else None)"

text \<open>
  The characters of a string literal after its opening quote, up to the closing quote:
  the decoded string and the number of code units read, the closing quote included. A
  control character below U+0020 is not allowed unescaped.
\<close>

fun lexString :: "jsstring \<Rightarrow> (jsstring \<times> nat) option" where
  "lexString [] = None"
| "lexString (c # cs) =
     (if c = 0x22 then Some ([], 1)
      else if c = 0x5C then
        (case cs of
           [] \<Rightarrow> None
         | e # es \<Rightarrow>
             if e = 0x75 then
               (case unicodeEscapeValue es of
                  None \<Rightarrow> None
                | Some u \<Rightarrow>
                    (case lexString (drop 4 es) of
                       None \<Rightarrow> None
                     | Some (s, n) \<Rightarrow> Some (u # s, n + 6)))
             else
               (case simpleEscape e of
                  None \<Rightarrow> None
                | Some u \<Rightarrow>
                    (case lexString es of
                       None \<Rightarrow> None
                     | Some (s, n) \<Rightarrow> Some (u # s, n + 2))))
      else if c < 0x20 then None
      else
        (case lexString cs of
           None \<Rightarrow> None
         | Some (s, n) \<Rightarrow> Some (c # s, n + 1)))"

definition digitsValue :: "jsstring \<Rightarrow> int" where
  "digitsValue ds = foldl (\<lambda>a c. 10 * a + (uint c - 0x30)) 0 ds"

definition decimalValue :: "bool \<Rightarrow> jsstring \<Rightarrow> jsstring \<Rightarrow> int \<Rightarrow> rat" where
  "decimalValue negative ds fs ex =
     (let m = of_int (digitsValue (ds @ fs));
          e = ex - int (length fs);
          v = (if 0 \<le> e then m * 10 ^ nat e else m / 10 ^ nat (- e))
      in if negative then - v else v)"

text \<open>
  A number literal: an optional minus, an integer part without a leading zero, an
  optional fraction and an optional exponent. The parts are read one after the other;
  each gives what is left of the text.
\<close>

definition lexFraction :: "jsstring \<Rightarrow> (jsstring \<times> jsstring) option" where
  "lexFraction cs =
     (case cs of
        c # r \<Rightarrow>
          if c = 0x2E then
            (if takeWhile isDigit r = [] then None
             else Some (takeWhile isDigit r, dropWhile isDigit r))
          else Some ([], cs)
      | [] \<Rightarrow> Some ([], cs))"

definition lexExponentDigits :: "bool \<Rightarrow> jsstring \<Rightarrow> (int \<times> jsstring) option" where
  "lexExponentDigits negative r =
     (if takeWhile isDigit r = [] then None
      else Some ((if negative then - digitsValue (takeWhile isDigit r)
                  else digitsValue (takeWhile isDigit r)),
                 dropWhile isDigit r))"

definition lexExponent :: "jsstring \<Rightarrow> (int \<times> jsstring) option" where
  "lexExponent cs =
     (case cs of
        c # r \<Rightarrow>
          if c = 0x65 \<or> c = 0x45 then
            (case r of
               s # r' \<Rightarrow>
                 if s = 0x2B then lexExponentDigits False r'
                 else if s = 0x2D then lexExponentDigits True r'
                 else lexExponentDigits False r
             | [] \<Rightarrow> None)
          else Some (0, cs)
      | [] \<Rightarrow> Some (0, cs))"

definition lexNumber :: "jsstring \<Rightarrow> (rat \<times> jsstring) option" where
  "lexNumber cs =
     (let negative = (case cs of c # r \<Rightarrow> c = 0x2D | [] \<Rightarrow> False);
          cs1 = (if negative then tl cs else cs);
          ds = takeWhile isDigit cs1
      in if ds = [] \<or> (hd ds = 0x30 \<and> tl ds \<noteq> []) then None
         else
           (case lexFraction (dropWhile isDigit cs1) of
              None \<Rightarrow> None
            | Some (fs, r2) \<Rightarrow>
                (case lexExponent r2 of
                   None \<Rightarrow> None
                 | Some (ex, r3) \<Rightarrow> Some (decimalValue negative ds fs ex, r3))))"

text \<open>
  A number token is the longest run of the characters that numbers are written with, and
  that run has to be a number literal as a whole: in a JSON text a number is followed by
  white space, a comma, a closing bracket or brace, or the end of the text.
\<close>

definition isNumberChar :: "codeunit \<Rightarrow> bool" where
  "isNumberChar c = (isDigit c \<or> c = 0x2B \<or> c = 0x2D \<or> c = 0x2E \<or> c = 0x45 \<or> c = 0x65)"

definition numberValue :: "jsstring \<Rightarrow> rat option" where
  "numberValue lexeme =
     (case lexNumber lexeme of
        None \<Rightarrow> None
      | Some (v, rest) \<Rightarrow> if rest = [] then Some v else None)"

function tokenize :: "jsstring \<Rightarrow> token list option" where
  "tokenize [] = Some []"
| "tokenize (c # cs) =
     (if isJsonWhiteSpace c then tokenize cs
      else if c = 0x5B then map_option (Cons LBracket) (tokenize cs)
      else if c = 0x5D then map_option (Cons RBracket) (tokenize cs)
      else if c = 0x7B then map_option (Cons LBrace) (tokenize cs)
      else if c = 0x7D then map_option (Cons RBrace) (tokenize cs)
      else if c = 0x2C then map_option (Cons Comma) (tokenize cs)
      else if c = 0x3A then map_option (Cons Colon) (tokenize cs)
      else if c = 0x22 then
        (case lexString cs of
           None \<Rightarrow> None
         | Some (s, n) \<Rightarrow> map_option (Cons (StringToken s)) (tokenize (drop n cs)))
      else if c = 0x2D \<or> isDigit c then
        (case numberValue (c # takeWhile isNumberChar cs) of
           None \<Rightarrow> None
         | Some v \<Rightarrow>
             map_option (Cons (Literal (JNumber v))) (tokenize (dropWhile isNumberChar cs)))
      else if take 4 (c # cs) = js ''true'' then
        map_option (Cons (Literal (JBool True))) (tokenize (drop 3 cs))
      else if take 5 (c # cs) = js ''false'' then
        map_option (Cons (Literal (JBool False))) (tokenize (drop 4 cs))
      else if take 4 (c # cs) = js ''null'' then
        map_option (Cons (Literal JNull)) (tokenize (drop 3 cs))
      else None)"
  by pat_completeness auto
termination
  by (relation "measure length") (auto simp: le_imp_less_Suc length_dropWhile_le)

text \<open>
  The parser runs over the tokens with a stack of the arrays and objects that are open.
  Each entry of the stack says what may come next at that level; the empty stack expects
  the value of the whole text.
\<close>

datatype expecting =
    ArrayFirst
  | ArrayValue "json list"
  | ArrayNext "json list"
  | ObjectFirst
  | ObjectKey "(jsstring \<times> json) list"
  | ObjectColon "(jsstring \<times> json) list" jsstring
  | ObjectValue "(jsstring \<times> json) list" jsstring
  | ObjectNext "(jsstring \<times> json) list"

datatype parser_state = Parsing "expecting list" | Done json

text \<open>A member repeated in an object text replaces the value of the earlier one.\<close>

fun defineProperty :: "jsstring \<Rightarrow> json \<Rightarrow> (jsstring \<times> json) list \<Rightarrow> (jsstring \<times> json) list" where
  "defineProperty k v [] = [(k, v)]"
| "defineProperty k v ((k', v') # ms) =
     (if k' = k then (k, v) # ms else (k', v') # defineProperty k v ms)"

fun valueExpected :: "expecting list \<Rightarrow> bool" where
  "valueExpected [] = True"
| "valueExpected (ArrayFirst # st) = True"
| "valueExpected (ArrayValue es # st) = True"
| "valueExpected (ObjectValue ms k # st) = True"
| "valueExpected _ = False"

text \<open>A complete value goes to the level that waits for it; the arrays keep their
  elements in reverse.\<close>

fun deliver :: "json \<Rightarrow> expecting list \<Rightarrow> parser_state option" where
  "deliver v [] = Some (Done v)"
| "deliver v (ArrayFirst # st) = Some (Parsing (ArrayNext [v] # st))"
| "deliver v (ArrayValue es # st) = Some (Parsing (ArrayNext (v # es) # st))"
| "deliver v (ObjectValue ms k # st) = Some (Parsing (ObjectNext (defineProperty k v ms) # st))"
| "deliver v _ = None"

fun parseStep :: "parser_state \<Rightarrow> token \<Rightarrow> parser_state option" where
  "parseStep (Done v) t = None"
| "parseStep (Parsing st) (Literal v) = deliver v st"
| "parseStep (Parsing (ObjectFirst # st)) (StringToken s) = Some (Parsing (ObjectColon [] s # st))"
| "parseStep (Parsing (ObjectKey ms # st)) (StringToken s) = Some (Parsing (ObjectColon ms s # st))"
| "parseStep (Parsing st) (StringToken s) = deliver (JString s) st"
| "parseStep (Parsing st) LBracket =
     (if valueExpected st then Some (Parsing (ArrayFirst # st)) else None)"
| "parseStep (Parsing st) LBrace =
     (if valueExpected st then Some (Parsing (ObjectFirst # st)) else None)"
| "parseStep (Parsing (ArrayFirst # st)) RBracket = deliver (JArray []) st"
| "parseStep (Parsing (ArrayNext es # st)) RBracket = deliver (JArray (rev es)) st"
| "parseStep (Parsing (ObjectFirst # st)) RBrace = deliver (JObject []) st"
| "parseStep (Parsing (ObjectNext ms # st)) RBrace = deliver (JObject ms) st"
| "parseStep (Parsing (ArrayNext es # st)) Comma = Some (Parsing (ArrayValue es # st))"
| "parseStep (Parsing (ObjectNext ms # st)) Comma = Some (Parsing (ObjectKey ms # st))"
| "parseStep (Parsing (ObjectColon ms k # st)) Colon = Some (Parsing (ObjectValue ms k # st))"
| "parseStep _ _ = None"

fun parseTokens :: "parser_state \<Rightarrow> token list \<Rightarrow> parser_state option" where
  "parseTokens p [] = Some p"
| "parseTokens p (t # ts) =
     (case parseStep p t of None \<Rightarrow> None | Some p' \<Rightarrow> parseTokens p' ts)"

text \<open>\<^verbatim>\<open>JSON.parse\<close> throws a SyntaxError on a text that is not a JSON value.\<close>

definition JSON_parse :: "jsstring \<Rightarrow> js_error + json" where
  "JSON_parse text =
     (case tokenize text of
        None \<Rightarrow> Inl SyntaxError
      | Some ts \<Rightarrow>
          (case parseTokens (Parsing []) ts of
             Some (Done v) \<Rightarrow> Inr v
           | _ \<Rightarrow> Inl SyntaxError))"

section \<open>History entries and \<^verbatim>\<open>JSON.stringify\<close>\<close>

text \<open>
  \<^verbatim>\<open>
  export interface HistoryConfig {
    maxSize: number;
    saveHistory: boolean;
    sensitivePatterns: Array<string>;
  }
  export interface HistoryEntry {
    command: string;
    timestamp: number;
  }
  \<close>
  The numbers of both are integers: the size of the history, and the milliseconds of
  \<^verbatim>\<open>Date.now()\<close>. A \<^verbatim>\<open>number\<close> that is not an integer (a fraction, \<^verbatim>\<open>NaN\<close>, an
  infinity) is not a value of the model.
\<close>

record HistoryConfig =
  maxSize :: int
  saveHistory :: bool
  sensitivePatterns :: "jsstring list"

record HistoryEntry =
  command :: jsstring
  timestamp :: int

definition DEFAULT_HISTORY_SIZE :: int where
  "DEFAULT_HISTORY_SIZE = 1000"

definition DEFAULT_HISTORY_CONFIG :: HistoryConfig where
  "DEFAULT_HISTORY_CONFIG =
     \<lparr>maxSize = DEFAULT_HISTORY_SIZE, saveHistory = True, sensitivePatterns = []\<rparr>"

text \<open>The value that an entry is once it has been parsed back from the file.\<close>

definition entryValue :: "HistoryEntry \<Rightarrow> json" where
  "entryValue e =
     JObject [(js ''command'', JString (command e)),
              (js ''timestamp'', JNumber (of_int (timestamp e)))]"

text \<open>
  QuoteJSONString: the quote, the backslash and the control characters are escaped, a
  surrogate that is not half of a pair is written as \<^verbatim>\<open>\uXXXX\<close>, and every other
  code unit is written as it is.
\<close>

definition hexDigit :: "nat \<Rightarrow> codeunit" where
  "hexDigit n = (if n < 10 then of_nat (0x30 + n) else of_nat (0x57 + n))"

definition hexDigits :: "codeunit \<Rightarrow> jsstring" where
  "hexDigits c =
     [hexDigit (unat c div 4096), hexDigit (unat c div 256 mod 16),
      hexDigit (unat c div 16 mod 16), hexDigit (unat c mod 16)]"

definition unicodeEscape :: "codeunit \<Rightarrow> jsstring" where
  "unicodeEscape c = [0x5C, 0x75] @ hexDigits c"

definition isLeadingSurrogate :: "codeunit \<Rightarrow> bool" where
  "isLeadingSurrogate c = (0xD800 \<le> c \<and> c \<le> 0xDBFF)"

definition isTrailingSurrogate :: "codeunit \<Rightarrow> bool" where
  "isTrailingSurrogate c = (0xDC00 \<le> c \<and> c \<le> 0xDFFF)"

definition quoteCodeUnit :: "codeunit \<Rightarrow> jsstring" where
  "quoteCodeUnit c =
     (if c = 0x08 then [0x5C, 0x62]
      else if c = 0x09 then [0x5C, 0x74]
      else if c = 0x0A then [0x5C, 0x6E]
      else if c = 0x0C then [0x5C, 0x66]
      else if c = 0x0D then [0x5C, 0x72]
      else if c = 0x22 then [0x5C, 0x22]
      else if c = 0x5C then [0x5C, 0x5C]
      else if c < 0x20 \<or> isLeadingSurrogate c \<or> isTrailingSurrogate c then unicodeEscape c
      else [c])"

fun quoteCodeUnits :: "jsstring \<Rightarrow> jsstring" where
  "quoteCodeUnits [] = []"
| "quoteCodeUnits [c] = quoteCodeUnit c"
| "quoteCodeUnits (c # d # cs) =
     (if isLeadingSurrogate c \<and> isTrailingSurrogate d then c # d # quoteCodeUnits cs
      else quoteCodeUnit c @ quoteCodeUnits (d # cs))"

definition QuoteJSONString :: "jsstring \<Rightarrow> jsstring" where
  "QuoteJSONString s = [0x22] @ quoteCodeUnits s @ [0x22]"

text \<open>
  The decimal digits of an integer, as Number::toString writes an integer below
  \<open>10 ^ 21\<close> in magnitude.
\<close>

function digitsOf :: "nat \<Rightarrow> jsstring" where
  "digitsOf n = (if n < 10 then [of_nat (0x30 + n)] else digitsOf (n div 10) @ [of_nat (0x30 + n mod 10)])"
  by pat_completeness auto
termination
  by (relation "measure id") auto

declare digitsOf.simps [simp del]

definition numberToString :: "int \<Rightarrow> jsstring" where
  "numberToString t = (if t < 0 then 0x2D # digitsOf (nat (- t)) else digitsOf (nat t))"

fun joinWith :: "jsstring \<Rightarrow> jsstring list \<Rightarrow> jsstring" where
  "joinWith sep [] = []"
| "joinWith sep [x] = x"
| "joinWith sep (x # y # ys) = x @ sep @ joinWith sep (y # ys)"

text \<open>
  SerializeJSONArray and SerializeJSONObject share their layout: nothing between the
  brackets of an empty one; the parts joined by commas when there is no gap; otherwise
  each part on a line of its own, indented by one more gap than the closing bracket.
\<close>

definition serializeParts :: "codeunit \<Rightarrow> codeunit \<Rightarrow> jsstring \<Rightarrow> jsstring \<Rightarrow> jsstring list \<Rightarrow> jsstring" where
  "serializeParts opening closing gap stepback parts =
     (if parts = [] then [opening, closing]
      else if gap = [] then [opening] @ joinWith [0x2C] parts @ [closing]
      else [opening] @ [0x0A] @ (stepback @ gap)
           @ joinWith ([0x2C, 0x0A] @ (stepback @ gap)) parts
           @ [0x0A] @ stepback @ [closing])"

definition serializeMember :: "jsstring \<Rightarrow> jsstring \<Rightarrow> jsstring \<Rightarrow> jsstring" where
  "serializeMember gap key str =
     QuoteJSONString key @ [0x3A] @ (if gap = [] then [] else [0x20]) @ str"

definition serializeEntry :: "jsstring \<Rightarrow> jsstring \<Rightarrow> HistoryEntry \<Rightarrow> jsstring" where
  "serializeEntry gap stepback e =
     serializeParts 0x7B 0x7D gap stepback
       [serializeMember gap (js ''command'') (QuoteJSONString (command e)),
        serializeMember gap (js ''timestamp'') (numberToString (timestamp e))]"

text \<open>
  \<^verbatim>\<open>JSON.stringify(history, null, space)\<close> of an array of entries; the third argument
  gives a gap of that many spaces, ten at most, and \<^verbatim>\<open>JSON.stringify(history)\<close> has no
  gap.
\<close>

definition JSON_stringify :: "HistoryEntry list \<Rightarrow> nat \<Rightarrow> jsstring" where
  "JSON_stringify history space =
     (let gap = replicate (min 10 space) 0x20
      in serializeParts 0x5B 0x5D gap [] (map (serializeEntry gap gap) history))"

section \<open>The file system\<close>

text \<open>
  \<^verbatim>\<open>const HISTORY_FILE = path.join(os.homedir(), ".codex", "history.json");\<close>

  Of the file system, the directory of the history file and the file are modelled: the
  directory is missing, or it is there and the file is absent or holds a text. The text
  is the string that \<^verbatim>\<open>readFile\<close> with the encoding \<^verbatim>\<open>utf-8\<close> gives. The console is
  the list of the messages written so far.
\<close>

datatype disk = NoDirectory | Directory "jsstring option"

record world =
  disk :: disk
  console :: "string list"

text \<open>
  What the operating system does to the calls of one operation is a parameter. A write
  may succeed, fail before the file is opened (the file is left as it was), or fail after
  the file was opened and truncated, with only the first \<open>n\<close> code units of the data
  written.
\<close>

datatype write_outcome = Written | NotOpened | Interrupted nat

record faults =
  mkdirFails :: bool
  readFails :: bool
  writeOutcome :: write_outcome

definition noFaults :: faults where
  "noFaults = \<lparr>mkdirFails = False, readFails = False, writeOutcome = Written\<rparr>"

definition existsSync :: "disk \<Rightarrow> bool" where
  "existsSync d = (case d of Directory (Some content) \<Rightarrow> True | _ \<Rightarrow> False)"

definition fs_readFile :: "faults \<Rightarrow> disk \<Rightarrow> js_error + jsstring" where
  "fs_readFile f d =
     (case d of
        Directory (Some content) \<Rightarrow> if readFails f then Inl IOError else Inr content
      | _ \<Rightarrow> Inl IOError)"

text \<open>\<^verbatim>\<open>fs.mkdir(dir, { recursive: true })\<close>: a directory that exists is left alone.\<close>

definition fs_mkdir :: "faults \<Rightarrow> disk \<Rightarrow> js_error + disk" where
  "fs_mkdir f d =
     (if mkdirFails f then Inl IOError
      else case d of NoDirectory \<Rightarrow> Inr (Directory None) | Directory file \<Rightarrow> Inr d)"

text \<open>
  \<^verbatim>\<open>fs.writeFile\<close> opens the file for writing, which creates or truncates it, and writes
  the data. The result is the disk after the call, with the error if one was thrown.
\<close>

definition fs_writeFile :: "faults \<Rightarrow> jsstring \<Rightarrow> disk \<Rightarrow> js_error option \<times> disk" where
  "fs_writeFile f content d =
     (case d of
        NoDirectory \<Rightarrow> (Some IOError, d)
      | Directory file \<Rightarrow>
          (case writeOutcome f of
             Written \<Rightarrow> (None, Directory (Some content))
           | NotOpened \<Rightarrow> (Some IOError, d)
           | Interrupted n \<Rightarrow> (Some IOError, Directory (Some (take n content)))))"

definition console_error :: "string \<Rightarrow> world \<Rightarrow> world" where
  "console_error message w = w\<lparr>console := console w @ [message]\<rparr>"

definition console_log :: "string \<Rightarrow> world \<Rightarrow> world" where
  "console_log message w = w\<lparr>console := console w @ [message]\<rparr>"

section \<open>The history store\<close>

text \<open>
  \<^verbatim>\<open>
  export async function loadCommandHistory(): Promise<Array<HistoryEntry>> {
    try {
      if (!existsSync(HISTORY_FILE)) {
        return [];
      }
      const data = await fs.readFile(HISTORY_FILE, "utf-8");
      const history = JSON.parse(data) as Array<HistoryEntry>;
      return Array.isArray(history) ? history : [];
    } catch (error) {
      console.error("Failed to load command history:", error);
      return [];
    }
  }
  \<close>
  The body of the \<^verbatim>\<open>try\<close> is \<open>loadCommandHistory_try\<close>, with \<open>Inl\<close> for what it throws;
  the function is the body under the \<^verbatim>\<open>catch\<close>. The array that comes back is what the
  parser built: the cast checks nothing.
\<close>

definition Array_isArray :: "json \<Rightarrow> bool" where
  "Array_isArray v = (case v of JArray xs \<Rightarrow> True | _ \<Rightarrow> False)"

definition elements :: "json \<Rightarrow> json list" where
  "elements v = (case v of JArray xs \<Rightarrow> xs | _ \<Rightarrow> [])"

definition loadCommandHistory_try :: "faults \<Rightarrow> disk \<Rightarrow> js_error + json list" where
  "loadCommandHistory_try f d =
     (if \<not> existsSync d then Inr []
      else
        (case fs_readFile f d of
           Inl error \<Rightarrow> Inl error
         | Inr data \<Rightarrow>
             (case JSON_parse data of
                Inl error \<Rightarrow> Inl error
              | Inr history \<Rightarrow> Inr (if Array_isArray history then elements history else []))))"

definition loadCommandHistory :: "faults \<Rightarrow> world \<Rightarrow> json list \<times> world" where
  "loadCommandHistory f w =
     (case loadCommandHistory_try f (disk w) of
        Inl error \<Rightarrow> ([], console_error ''Failed to load command history:'' w)
      | Inr history \<Rightarrow> (history, w))"

text \<open>
  \<^verbatim>\<open>Array.prototype.slice(start)\<close>: a negative start counts from the end, and the start
  is clamped to the array.
\<close>

definition Array_slice :: "'a list \<Rightarrow> int \<Rightarrow> 'a list" where
  "Array_slice xs start =
     (let len = int (length xs);
          k = (if start < 0 then max (len + start) 0 else min start len)
      in drop (nat k) xs)"

text \<open>
  \<^verbatim>\<open>
  export async function saveCommandHistory(
    history: Array<HistoryEntry>,
    config: HistoryConfig = DEFAULT_HISTORY_CONFIG,
  ): Promise<void> {
    try {
      const dir = path.dirname(HISTORY_FILE);
      await fs.mkdir(dir, { recursive: true });
      const trimmedHistory = history.slice(-config.maxSize);
      await fs.writeFile(
        HISTORY_FILE,
        JSON.stringify(trimmedHistory, null, 2),
        "utf-8",
      );
    } catch (error) {
      console.error("Failed to save command history:", error);
    }
  }
  \<close>
\<close>

definition saveCommandHistory_try :: "faults \<Rightarrow> HistoryEntry list \<Rightarrow> HistoryConfig \<Rightarrow> disk \<Rightarrow> js_error option \<times> disk" where
  "saveCommandHistory_try f history config d =
     (case fs_mkdir f d of
        Inl error \<Rightarrow> (Some error, d)
      | Inr d' \<Rightarrow>
          (let trimmedHistory = Array_slice history (- maxSize config)
           in fs_writeFile f (JSON_stringify trimmedHistory 2) d'))"

definition saveCommandHistory :: "faults \<Rightarrow> HistoryEntry list \<Rightarrow> HistoryConfig \<Rightarrow> world \<Rightarrow> world" where
  "saveCommandHistory f history config w =
     (case saveCommandHistory_try f history config (disk w) of
        (Some error, d') \<Rightarrow> console_error ''Failed to save command history:'' (w\<lparr>disk := d'\<rparr>)
      | (None, d') \<Rightarrow> w\<lparr>disk := d'\<rparr>)"

text \<open>
  \<^verbatim>\<open>
  export async function addToHistory(
    command: string,
    history: Array<HistoryEntry>,
    config: HistoryConfig = DEFAULT_HISTORY_CONFIG,
  ): Promise<Array<HistoryEntry>> {
    if (!config.saveHistory || command.trim() === "") {
      return history;
    }
    if (isSensitiveCommand(command, config.sensitivePatterns)) {
      return history;
    }
    const lastEntry = history[history.length - 1];
    if (lastEntry && lastEntry.command === command) {
      return history;
    }
    const newEntry: HistoryEntry = {
      command,
      timestamp: Date.now(),
    };
    console.log("Adding to history:", history);
    const newHistory = [...history, newEntry];
    await saveCommandHistory(newHistory, config);
    return newHistory;
  }
  \<close>
  The compiler of the patterns, the faults of the save and the reading \<open>now\<close> of the
  clock are parameters. \<open>lastEntry\<close> is \<open>None\<close> for the \<^verbatim>\<open>undefined\<close> that indexing an
  empty array gives.
\<close>

definition lastEntry :: "HistoryEntry list \<Rightarrow> HistoryEntry option" where
  "lastEntry history = (if history = [] then None else Some (last history))"

definition addToHistory ::
  "regexp_compiler \<Rightarrow> faults \<Rightarrow> int \<Rightarrow> jsstring \<Rightarrow> HistoryEntry list \<Rightarrow> HistoryConfig \<Rightarrow> world
     \<Rightarrow> HistoryEntry list \<times> world" where
  "addToHistory new_RegExp f now cmd history config w =
     (if \<not> saveHistory config \<or> trim cmd = [] then (history, w)
      else if isSensitiveCommand new_RegExp cmd (sensitivePatterns config) then (history, w)
      else if (case lastEntry history of None \<Rightarrow> False | Some e \<Rightarrow> command e = cmd)
        then (history, w)
      else
        (let newEntry = \<lparr>command = cmd, timestamp = now\<rparr>;
             w' = console_log ''Adding to history:'' w;
             newHistory = history @ [newEntry]
         in (newHistory, saveCommandHistory f newHistory config w')))"

text \<open>
  \<^verbatim>\<open>
  export async function clearCommandHistory(): Promise<void> {
    try {
      if (existsSync(HISTORY_FILE)) {
        await fs.writeFile(HISTORY_FILE, JSON.stringify([]), "utf-8");
      }
    } catch (error) {
      console.error("Failed to clear command history:", error);
    }
  }
  \<close>
\<close>

definition clearCommandHistory_try :: "faults \<Rightarrow> disk \<Rightarrow> js_error option \<times> disk" where
  "clearCommandHistory_try f d =
     (if existsSync d then fs_writeFile f (JSON_stringify [] 0) d else (None, d))"

definition clearCommandHistory :: "faults \<Rightarrow> world \<Rightarrow> world" where
  "clearCommandHistory f w =
     (case clearCommandHistory_try f (disk w) of
        (Some error, d') \<Rightarrow> console_error ''Failed to clear command history:'' (w\<lparr>disk := d'\<rparr>)
      | (None, d') \<Rightarrow> w\<lparr>disk := d'\<rparr>)"

section \<open>The redaction rules as the specification words them\<close>

text \<open>
  The built-in rules: a token-like substring of 20 or more letters, digits, hyphens or
  underscores that lies between two word boundaries, and a whole-word occurrence of
  \<open>password\<close>, \<open>secret\<close>, \<open>token\<close> or \<open>key\<close> in any mix of upper and lower case.
  \<open>tokenLikeAt s i j\<close> speaks of the substring from index \<open>i\<close> up to \<open>j\<close>, and
  \<open>wholeWordAt w s i\<close> of the occurrence of \<open>w\<close> that starts at index \<open>i\<close>.
\<close>

definition isTokenChar :: "codeunit \<Rightarrow> bool" where
  "isTokenChar c =
     ((0x41 \<le> c \<and> c \<le> 0x5A) \<or> (0x61 \<le> c \<and> c \<le> 0x7A) \<or> (0x30 \<le> c \<and> c \<le> 0x39)
      \<or> c = 0x2D \<or> c = 0x5F)"

definition tokenLikeAt :: "jsstring \<Rightarrow> nat \<Rightarrow> nat \<Rightarrow> bool" where
  "tokenLikeAt s i j =
     (i + 20 \<le> j \<and> j \<le> length s \<and> list_all isTokenChar (take (j - i) (drop i s))
      \<and> atWordBoundary s i \<and> atWordBoundary s j)"

definition hasTokenLike :: "jsstring \<Rightarrow> bool" where
  "hasTokenLike s = (\<exists>i\<in>{0..length s}. \<exists>j\<in>{0..length s}. tokenLikeAt s i j)"

definition toLowerAscii :: "codeunit \<Rightarrow> codeunit" where
  "toLowerAscii c = (if 0x41 \<le> c \<and> c \<le> 0x5A then c + 0x20 else c)"

definition wholeWordAt :: "string \<Rightarrow> jsstring \<Rightarrow> nat \<Rightarrow> bool" where
  "wholeWordAt w s i =
     (i + length w \<le> length s
      \<and> map toLowerAscii (take (length w) (drop i s)) = map toLowerAscii (js w)
      \<and> atWordBoundary s i \<and> atWordBoundary s (i + length w))"

definition hasWholeWord :: "string \<Rightarrow> jsstring \<Rightarrow> bool" where
  "hasWholeWord w s = (\<exists>i\<in>{0..length s}. wholeWordAt w s i)"

definition builtinSensitive :: "jsstring \<Rightarrow> bool" where
  "builtinSensitive s =
     (hasTokenLike s \<or> hasWholeWord ''password'' s \<or> hasWholeWord ''secret'' s
      \<or> hasWholeWord ''token'' s \<or> hasWholeWord ''key'' s)"

definition callerSensitive :: "regexp_compiler \<Rightarrow> jsstring list \<Rightarrow> jsstring \<Rightarrow> bool" where
  "callerSensitive new_RegExp ps s =
     (\<exists>p\<in>set ps. case new_RegExp p of Inl error \<Rightarrow> False | Inr pattern \<Rightarrow> pattern s)"

text \<open>
  A compiler of patterns for the examples: it knows the pattern \<^verbatim>\<open>l\<close> and rejects
  every other source, the unbalanced \<^verbatim>\<open>[\<close> among them.
\<close>

definition sampleCompiler :: regexp_compiler where
  "sampleCompiler p = (if p = js ''l'' then Inr (\<lambda>s. 0x6C \<in> set s) else Inl SyntaxError)"

section \<open>Notions for stating the properties\<close>

text \<open>
  The tokens of a serialized entry and of a serialized history, for the proof that the
  parser reads back what \<^verbatim>\<open>JSON.stringify\<close> writes.
\<close>

definition entryTokens :: "HistoryEntry \<Rightarrow> token list" where
  "entryTokens e =
     [LBrace, StringToken (js ''command''), Colon, StringToken (command e), Comma,
      StringToken (js ''timestamp''), Colon, Literal (JNumber (of_int (timestamp e))), RBrace]"

fun historyTokens :: "HistoryEntry list \<Rightarrow> token list" where
  "historyTokens [] = []"
| "historyTokens [e] = entryTokens e"
| "historyTokens (e # e' # es) = entryTokens e @ Comma # historyTokens (e' # es)"

text \<open>
  The specification's words for the trimming of \<open>save\<close>: the last \<open>n\<close> entries of a
  sequence in their order, and the sequence truncated to its last \<open>n\<close> entries when it
  has more than \<open>n\<close>.
\<close>

definition lastEntries :: "nat \<Rightarrow> 'a list \<Rightarrow> 'a list" where
  "lastEntries n xs = rev (take n (rev xs))"

definition truncated :: "int \<Rightarrow> 'a list \<Rightarrow> 'a list" where
  "truncated n xs = (if n < int (length xs) then lastEntries (nat n) xs else xs)"

text \<open>The content of the history file on a disk, \<open>None\<close> when there is no file.\<close>

definition fileOf :: "disk \<Rightarrow> jsstring option" where
  "fileOf d = (case d of NoDirectory \<Rightarrow> None | Directory file \<Rightarrow> file)"

text \<open>Inputs for the examples.\<close>

definition sampleEntry :: HistoryEntry where
  "sampleEntry = \<lparr>command = js ''ls'', timestamp = 1\<rparr>"

definition sampleWorld :: "jsstring \<Rightarrow> world" where
  "sampleWorld content = \<lparr>disk = Directory (Some content), console = []\<rparr>"

definition sampleHistory :: "HistoryEntry list" where
  "sampleHistory =
     [\<lparr>command = js ''ls'', timestamp = 1\<rparr>, \<lparr>command = js ''cd'', timestamp = 2\<rparr>,
      \<lparr>command = js ''ls'', timestamp = 3\<rparr>]"

definition sampleConfig :: HistoryConfig where
  "sampleConfig = \<lparr>maxSize = 2, saveHistory = True, sensitivePatterns = []\<rparr>"

section \<open>The redaction filter meets its rules\<close>

lemma list_ex_upto_Suc: "list_ex P [0 ..< Suc n] \<longleftrightarrow> (\<exists>i\<in>{0..n}. P i)"
proof -
  have "set [0 ..< Suc n] = {0..n}" by auto
  then show ?thesis unfolding list_ex_iff by simp
qed

lemma canonicalize_toLowerAscii:
  "canonicalize True a = canonicalize True b \<longleftrightarrow> toLowerAscii a = toLowerAscii b"
  unfolding canonicalize_def toLowerAscii_def
  by (auto simp: word_le_nat_alt word_less_nat_alt unat_sub unat_word_ariths word_unat_eq_iff)

lemma map_canonicalize_toLowerAscii:
  "length xs = length ys \<Longrightarrow>
   map (canonicalize True) xs = map (canonicalize True) ys \<longleftrightarrow>
   map toLowerAscii xs = map toLowerAscii ys"
  by (induction xs ys rule: list_induct2) (auto simp: canonicalize_toLowerAscii)

lemma matchesFrom_chars:
  "e \<le> length s \<Longrightarrow> matchesFrom ic (map (\<lambda>c. Atom (PatternChar (of_char c))) w @ ts) s e \<longleftrightarrow>
     e + length w \<le> length s
     \<and> map (canonicalize ic) (js w) = map (canonicalize ic) (take (length w) (drop e s))
     \<and> matchesFrom ic ts s (e + length w)"
proof (induction w arbitrary: e)
  case Nil
  then show ?case by (simp add: js_def)
next
  case (Cons c w)
  show ?case
  proof (cases "e < length s")
    case False
    then show ?thesis by simp
  next
    case True
    then have d: "drop e s = s ! e # drop (Suc e) s"
      by (simp add: Cons_nth_drop_Suc)
    show ?thesis
      using True Cons.IH [of "Suc e"] by (auto simp: d js_def)
  qed
qed

lemma test_wholeWord:
  "RegExp_test \<lparr>disjunction = wholeWord w, ignoreCase = True\<rparr> s \<longleftrightarrow> hasWholeWord w s"
proof -
  have "matchesFrom True (wholeWord w) s i \<longleftrightarrow> wholeWordAt w s i" if "i \<le> length s" for i
  proof -
    have "matchesFrom True (wholeWord w) s i \<longleftrightarrow>
          atWordBoundary s i \<and> i + length w \<le> length s
          \<and> map (canonicalize True) (js w) = map (canonicalize True) (take (length w) (drop i s))
          \<and> atWordBoundary s (i + length w)"
      using that by (simp add: wholeWord_def matchesFrom_chars)
    also have "\<dots> \<longleftrightarrow> wholeWordAt w s i"
      unfolding wholeWordAt_def
      using map_canonicalize_toLowerAscii [of "js w" "take (length w) (drop i s)"]
      by (auto simp: js_def)
    finally show ?thesis .
  qed
  then show ?thesis
    unfolding RegExp_test_def hasWholeWord_def list_ex_upto_Suc by simp
qed

lemma atomMatches_tokenClass: "atomMatches False (CharClass tokenClass) c \<longleftrightarrow> isTokenChar c"
  by (auto simp: tokenClass_def inRanges_def isTokenChar_def)

lemma test_tokenLike:
  "RegExp_test \<lparr>disjunction = [WordBoundary, AtLeast 20 (CharClass tokenClass), WordBoundary],
                 ignoreCase = False\<rparr> s \<longleftrightarrow> hasTokenLike s"
proof -
  have "matchesFrom False [WordBoundary, AtLeast 20 (CharClass tokenClass), WordBoundary] s i
        \<longleftrightarrow> (\<exists>j\<in>{0..length s}. tokenLikeAt s i j)" if "i \<le> length s" for i
  proof
    assume "matchesFrom False [WordBoundary, AtLeast 20 (CharClass tokenClass), WordBoundary] s i"
    then obtain k where k: "20 \<le> k" "k \<le> length s - i" "atWordBoundary s i"
      "repeatMatches False (CharClass tokenClass) s i k" "atWordBoundary s (i + k)"
      by (auto simp: list_ex_iff)
    then have "tokenLikeAt s i (i + k)"
      by (auto simp: tokenLikeAt_def repeatMatches_def list_all_iff atomMatches_tokenClass
               simp del: atomMatches.simps)
    moreover have "i + k \<in> {0..length s}" using k that by auto
    ultimately show "\<exists>j\<in>{0..length s}. tokenLikeAt s i j" by blast
  next
    assume "\<exists>j\<in>{0..length s}. tokenLikeAt s i j"
    then obtain j where j: "j \<le> length s" "tokenLikeAt s i j" by auto
    then have "20 \<le> j - i" "j - i < Suc (length s - i)" "i + (j - i) = j"
      by (auto simp: tokenLikeAt_def)
    moreover have "repeatMatches False (CharClass tokenClass) s i (j - i)"
      using j by (auto simp: tokenLikeAt_def repeatMatches_def list_all_iff atomMatches_tokenClass
               simp del: atomMatches.simps)
    moreover have "atWordBoundary s i" "atWordBoundary s j"
      using j by (simp_all add: tokenLikeAt_def)
    ultimately have "j - i \<in> set [20 ..< Suc (length s - i)]"
      "repeatMatches False (CharClass tokenClass) s i (j - i) \<and> atWordBoundary s (i + (j - i))"
      by auto
    then have "list_ex (\<lambda>k. repeatMatches False (CharClass tokenClass) s i k \<and> atWordBoundary s (i + k))
        [20 ..< Suc (length s - i)]"
      unfolding list_ex_iff by blast
    then show "matchesFrom False [WordBoundary, AtLeast 20 (CharClass tokenClass), WordBoundary] s i"
      using \<open>atWordBoundary s i\<close> by simp
  qed
  then show ?thesis
    unfolding RegExp_test_def hasTokenLike_def list_ex_upto_Suc by simp
qed

lemma testBuiltin_SENSITIVE_PATTERNS:
  "testBuiltin SENSITIVE_PATTERNS s \<longleftrightarrow> builtinSensitive s"
  by (simp add: SENSITIVE_PATTERNS_def builtinSensitive_def test_wholeWord test_tokenLike)

lemma testAdditional_iff:
  "testAdditional new_RegExp ps s \<longleftrightarrow> callerSensitive new_RegExp ps s"
  by (induction ps) (auto simp: callerSensitive_def split: sum.splits)

section \<open>Reading back what was written\<close>

lemma hexValue_hexDigit_all: "\<forall>n\<in>{0..<16}. hexValue (hexDigit n) = Some n"
  by code_simp

lemma hexValue_hexDigit: "n < 16 \<Longrightarrow> hexValue (hexDigit n) = Some n"
  using hexValue_hexDigit_all by simp

lemma hex_positions:
  fixes n :: nat
  shows "((n div 4096 * 16 + n div 256 mod 16) * 16 + n div 16 mod 16) * 16 + n mod 16 = n"
proof -
  have 1: "n div 256 = n div 16 div 16" by (simp add: div_mult2_eq)
  have 2: "n div 4096 = n div 16 div 16 div 16" by (simp add: div_mult2_eq)
  have "n div 16 div 16 div 16 * 16 + n div 16 div 16 mod 16 = n div 16 div 16"
    by simp
  moreover have "n div 16 div 16 * 16 + n div 16 mod 16 = n div 16"
    by simp
  moreover have "n div 16 * 16 + n mod 16 = n"
    by simp
  ultimately show ?thesis unfolding 1 2 by simp
qed

lemma unicodeEscapeValue_hexDigits:
  "unicodeEscapeValue (hexDigits c @ rest) = Some c"
proof -
  let ?n = "unat c"
  have lt: "?n < 65536" using unsigned_less [of c] by simp
  then have a: "?n div 4096 < 16" by simp
  show ?thesis
    using hex_positions [of ?n]
    by (simp add: hexDigits_def hexValue_hexDigit a del: of_nat_add of_nat_mult)
qed

lemma length_hexDigits: "length (hexDigits c) = 4"
  by (simp add: hexDigits_def)

lemma lexString_unicodeEscape:
  "lexString (unicodeEscape c @ xs) =
     (case lexString xs of None \<Rightarrow> None | Some (s, n) \<Rightarrow> Some (c # s, n + 6))"
  by (simp add: unicodeEscape_def unicodeEscapeValue_hexDigits length_hexDigits)

lemma length_unicodeEscape: "length (unicodeEscape c) = 6"
  by (simp add: unicodeEscape_def length_hexDigits)

lemma lexString_literal:
  "c \<noteq> 0x22 \<Longrightarrow> c \<noteq> 0x5C \<Longrightarrow> \<not> c < 0x20 \<Longrightarrow>
   lexString (c # xs) = (case lexString xs of None \<Rightarrow> None | Some (s, n) \<Rightarrow> Some (c # s, n + 1))"
  by simp

lemma lexString_simpleEscape:
  "simpleEscape e = Some u \<Longrightarrow> e \<noteq> 0x75 \<Longrightarrow>
   lexString (0x5C # e # xs) = (case lexString xs of None \<Rightarrow> None | Some (s, n) \<Rightarrow> Some (u # s, n + 2))"
  by simp

lemma lexString_quoteCodeUnit:
  "lexString (quoteCodeUnit c @ xs) =
     (case lexString xs of None \<Rightarrow> None
      | Some (s, n) \<Rightarrow> Some (c # s, n + length (quoteCodeUnit c)))"
proof -
  consider "c = 0x08" | "c = 0x09" | "c = 0x0A" | "c = 0x0C" | "c = 0x0D" | "c = 0x22" | "c = 0x5C"
    | "c \<noteq> 0x08" "c \<noteq> 0x09" "c \<noteq> 0x0A" "c \<noteq> 0x0C" "c \<noteq> 0x0D" "c \<noteq> 0x22" "c \<noteq> 0x5C"
      "c < 0x20 \<or> isLeadingSurrogate c \<or> isTrailingSurrogate c"
    | "c \<noteq> 0x08" "c \<noteq> 0x09" "c \<noteq> 0x0A" "c \<noteq> 0x0C" "c \<noteq> 0x0D" "c \<noteq> 0x22" "c \<noteq> 0x5C"
      "\<not> (c < 0x20 \<or> isLeadingSurrogate c \<or> isTrailingSurrogate c)"
    by blast
  then show ?thesis
  proof cases
    case 8
    then have "quoteCodeUnit c = unicodeEscape c" by (simp add: quoteCodeUnit_def)
    then show ?thesis
      by (simp only: lexString_unicodeEscape length_unicodeEscape)
  next
    case 9
    then have q: "quoteCodeUnit c = [c]" by (simp add: quoteCodeUnit_def)
    show ?thesis unfolding q using 9
      by (cases "lexString xs") (simp_all del: lexString.simps add: lexString_literal)
  qed (cases "lexString xs"; simp add: quoteCodeUnit_def simpleEscape_def)+
qed

lemma lexString_quoteCodeUnits:
  "lexString (quoteCodeUnits s @ 0x22 # rest) = Some (s, Suc (length (quoteCodeUnits s)))"
proof (induction s rule: quoteCodeUnits.induct)
  case 1
  show ?case by simp
next
  case (2 c)
  show ?case by (simp add: lexString_quoteCodeUnit del: lexString.simps) simp
next
  case (3 c d cs)
  show ?case
  proof (cases "isLeadingSurrogate c \<and> isTrailingSurrogate d")
    case True
    then have c: "c \<noteq> 0x22" "c \<noteq> 0x5C" "\<not> c < 0x20" and d: "d \<noteq> 0x22" "d \<noteq> 0x5C" "\<not> d < 0x20"
      by (auto simp: isLeadingSurrogate_def isTrailingSurrogate_def word_le_nat_alt word_less_nat_alt)
    have q: "quoteCodeUnits (c # d # cs) = c # d # quoteCodeUnits cs"
      using True by simp
    show ?thesis
      unfolding q using "3.IH" (1) [OF True]
      by (simp add: lexString_literal c d del: lexString.simps)
  next
    case False
    have q: "quoteCodeUnits (c # d # cs) = quoteCodeUnit c @ quoteCodeUnits (d # cs)"
      using False by auto
    show ?thesis
      unfolding q using "3.IH" (2) [OF False]
      by (simp add: lexString_quoteCodeUnit del: lexString.simps quoteCodeUnits.simps)
  qed
qed

lemma decimal_digit_all:
  "\<forall>d\<in>{0..<10}. isDigit (of_nat (0x30 + d)) \<and> uint (of_nat (0x30 + d) :: codeunit) - 0x30 = int d
      \<and> ((of_nat (0x30 + d) :: codeunit) = 0x30 \<longrightarrow> d = 0)"
  by code_simp

lemma decimal_digit:
  assumes "d < 10"
  shows "isDigit (of_nat (0x30 + d))"
    and "uint (of_nat (0x30 + d) :: codeunit) - 0x30 = int d"
    and "(of_nat (0x30 + d) :: codeunit) = 0x30 \<Longrightarrow> d = 0"
  using decimal_digit_all assms by auto

lemma digitsOf_isDigit: "list_all isDigit (digitsOf n)"
proof (induction n rule: digitsOf.induct)
  case (1 n)
  show ?case
  proof (cases "n < 10")
    case True
    then show ?thesis
      by (subst digitsOf.simps) (simp add: decimal_digit(1) del: of_nat_add)
  next
    case False
    moreover have "n mod 10 < 10" by simp
    ultimately show ?thesis
      using 1 by (subst digitsOf.simps) (simp add: decimal_digit(1) del: of_nat_add)
  qed
qed

lemma digitsOf_not_Nil: "digitsOf n \<noteq> []"
  by (subst digitsOf.simps) simp

lemma digitsValue_snoc: "digitsValue (ds @ [c]) = 10 * digitsValue ds + (uint c - 0x30)"
  by (simp add: digitsValue_def)

lemma digitsValue_digitsOf: "digitsValue (digitsOf n) = int n"
proof (induction n rule: digitsOf.induct)
  case (1 n)
  show ?case
  proof (cases "n < 10")
    case True
    then show ?thesis
      by (subst digitsOf.simps) (simp add: digitsValue_def decimal_digit(2) del: of_nat_add)
  next
    case False
    moreover have "n mod 10 < 10" by simp
    ultimately show ?thesis
      using 1
      by (subst digitsOf.simps)
         (simp add: digitsValue_snoc decimal_digit(2) del: of_nat_add, simp add: zdiv_int zmod_int)
  qed
qed

lemma hd_digitsOf: "0 < n \<Longrightarrow> hd (digitsOf n) \<noteq> 0x30"
proof (induction n rule: digitsOf.induct)
  case (1 n)
  show ?case
  proof (cases "n < 10")
    case True
    then show ?thesis
      using 1(2) decimal_digit(3) [of n]
      by (subst digitsOf.simps) (auto simp del: of_nat_add)
  next
    case False
    then have "0 < n div 10" by simp
    then show ?thesis
      using False 1(1)
      by (subst digitsOf.simps) (simp add: digitsOf_not_Nil)
  qed
qed

lemma digitsOf_leading_zero: "hd (digitsOf n) = 0x30 \<Longrightarrow> tl (digitsOf n) = []"
proof (cases "n = 0")
  case True
  then show ?thesis by (subst digitsOf.simps) simp
next
  case False
  assume "hd (digitsOf n) = 0x30"
  then show ?thesis using hd_digitsOf [of n] False by simp
qed

lemma takeWhile_all: "list_all P xs \<Longrightarrow> takeWhile P xs = xs"
  by (induction xs) auto

lemma dropWhile_all: "list_all P xs \<Longrightarrow> dropWhile P xs = []"
  by (induction xs) auto

lemma lexNumber_digitsOf:
  "lexNumber (digitsOf n) = Some (of_nat n, [])"
proof -
  obtain c cs where d: "digitsOf n = c # cs"
    using digitsOf_not_Nil [of n] by (cases "digitsOf n") auto
  have "isDigit c" using digitsOf_isDigit [of n] d by simp
  then have c: "c \<noteq> 0x2D" by (auto simp: isDigit_def)
  have t: "takeWhile isDigit (digitsOf n) = digitsOf n"
    and r: "dropWhile isDigit (digitsOf n) = []"
    by (simp_all add: takeWhile_all dropWhile_all digitsOf_isDigit)
  have neg: "(case digitsOf n of c # r \<Rightarrow> c = 0x2D | [] \<Rightarrow> False) = False"
    using d c by simp
  show ?thesis
    unfolding lexNumber_def neg Let_def
    using digitsOf_leading_zero [of n]
    by (auto simp: t r digitsOf_not_Nil lexFraction_def lexExponent_def decimalValue_def
          digitsValue_digitsOf)
qed

lemma lexNumber_minus_digitsOf:
  "lexNumber (0x2D # digitsOf n) = Some (- of_nat n, [])"
proof -
  have t: "takeWhile isDigit (digitsOf n) = digitsOf n"
    and r: "dropWhile isDigit (digitsOf n) = []"
    by (simp_all add: takeWhile_all dropWhile_all digitsOf_isDigit)
  show ?thesis
    unfolding lexNumber_def Let_def
    using digitsOf_leading_zero [of n]
    by (auto simp: t r digitsOf_not_Nil lexFraction_def lexExponent_def decimalValue_def
          digitsValue_digitsOf)
qed

lemma numberValue_numberToString: "numberValue (numberToString t) = Some (of_int t)"
proof (cases "t < 0")
  case True
  then have "- rat_of_nat (nat (- t)) = of_int t" by simp
  then show ?thesis
    using True by (simp add: numberValue_def numberToString_def lexNumber_minus_digitsOf)
next
  case False
  then have "rat_of_nat (nat t) = of_int t" by simp
  then show ?thesis
    using False by (simp add: numberValue_def numberToString_def lexNumber_digitsOf)
qed

section \<open>Properties of the redaction filter and of \<open>addToHistory\<close>\<close>

lemma sample_key: "isSensitiveCommand sampleCompiler (js ''key'') []"
  by code_simp

lemma sample_ls: "\<not> isSensitiveCommand sampleCompiler (js ''ls'') []"
  by code_simp

lemma sample_ls_caller: "isSensitiveCommand sampleCompiler (js ''ls'') [js ''['', js ''l'']"
  by code_simp

text \<open>
  Claim C5. For every command and every list of caller patterns, the check says
  "sensitive" exactly when a built-in rule matches the command or a caller pattern that
  compiles matches it; the built-in rules are the token-like substring of 20 or more
  letters, digits, hyphens or underscores between word boundaries, and the whole words
  \<open>password\<close>, \<open>secret\<close>, \<open>token\<close> and \<open>key\<close> in any case.
\<close>

theorem isSensitiveCommand_iff:
  "isSensitiveCommand new_RegExp cmd ps \<longleftrightarrow>
     builtinSensitive cmd \<or> callerSensitive new_RegExp ps cmd"
  by (simp add: isSensitiveCommand_def testBuiltin_SENSITIVE_PATTERNS testAdditional_iff)

theorem isSensitiveCommand_iff_witness:
  "builtinSensitive (js ''key'') \<and> \<not> builtinSensitive (js ''ls'')
   \<and> callerSensitive sampleCompiler [js ''['', js ''l''] (js ''ls'')"
proof -
  have e: "\<not> callerSensitive sampleCompiler [] s" for s
    by (simp add: callerSensitive_def)
  show ?thesis
    using sample_key sample_ls sample_ls_caller e
      isSensitiveCommand_iff [of sampleCompiler "js ''key''" "[]"]
      isSensitiveCommand_iff [of sampleCompiler "js ''ls''" "[]"]
      isSensitiveCommand_iff [of sampleCompiler "js ''ls''" "[js ''['', js ''l'']"]
    by blast
qed

lemma testAdditional_filter:
  "testAdditional new_RegExp (filter (\<lambda>p. \<not> isl (new_RegExp p)) ps) cmd
     = testAdditional new_RegExp ps cmd"
  by (induction ps) (auto split: sum.splits)

text \<open>
  Claim C6. A caller pattern that does not compile is skipped: the check has a result
  for every command and every list of patterns, and the result is the one that the
  patterns that compile give alone.
\<close>

theorem isSensitiveCommand_skips_invalid:
  "isSensitiveCommand new_RegExp cmd ps
     = isSensitiveCommand new_RegExp cmd (filter (\<lambda>p. \<not> isl (new_RegExp p)) ps)"
  by (simp add: isSensitiveCommand_def testAdditional_filter)

theorem isSensitiveCommand_skips_invalid_witness:
  "isl (sampleCompiler (js ''['')) \<and> \<not> isl (sampleCompiler (js ''l''))
   \<and> isSensitiveCommand sampleCompiler (js ''ls'') [js ''['', js ''l'']
   \<and> isSensitiveCommand sampleCompiler (js ''ls'') [js ''l'']"
proof -
  have a: "isl (sampleCompiler (js ''[''))" "\<not> isl (sampleCompiler (js ''l''))"
    by (simp_all add: sampleCompiler_def js_def)
  then have "filter (\<lambda>p. \<not> isl (sampleCompiler p)) [js ''['', js ''l''] = [js ''l'']"
    by simp
  then show ?thesis
    using a sample_ls_caller
      isSensitiveCommand_skips_invalid [of sampleCompiler "js ''ls''" "[js ''['', js ''l'']"]
    by simp
qed

text \<open>
  Claim C2. When the check says that the command is sensitive, \<open>addToHistory\<close> returns
  the history it was given and leaves the file, and the rest of the world, as they were.
\<close>

theorem addToHistory_sensitive:
  "isSensitiveCommand new_RegExp cmd (sensitivePatterns config) \<Longrightarrow>
   addToHistory new_RegExp f now cmd S config w = (S, w)"
  by (simp add: addToHistory_def)

theorem addToHistory_sensitive_witness:
  "isSensitiveCommand sampleCompiler (js ''key'') (sensitivePatterns DEFAULT_HISTORY_CONFIG)
   \<and> addToHistory sampleCompiler noFaults 5 (js ''key'') [\<lparr>command = js ''ls'', timestamp = 1\<rparr>]
        DEFAULT_HISTORY_CONFIG \<lparr>disk = Directory (Some (js ''[]'')), console = []\<rparr>
      = ([\<lparr>command = js ''ls'', timestamp = 1\<rparr>],
         \<lparr>disk = Directory (Some (js ''[]'')), console = []\<rparr>)"
proof -
  have h: "isSensitiveCommand sampleCompiler (js ''key'') (sensitivePatterns DEFAULT_HISTORY_CONFIG)"
    using sample_key by (simp add: DEFAULT_HISTORY_CONFIG_def)
  show ?thesis
    using h addToHistory_sensitive [OF h] by simp
qed

text \<open>
  Claim C7. When the last entry of a non-empty history has exactly the command that is
  added, the history comes back unchanged. When history is saved, the command is not
  blank and not sensitive, and it differs from the command of the last entry (it may
  occur earlier in the history), an entry with the command and the time of the clock is
  appended.
\<close>

theorem addToHistory_duplicate:
  "(S \<noteq> [] \<and> command (last S) = cmd \<longrightarrow>
      addToHistory new_RegExp f now cmd S config w = (S, w))
   \<and> (saveHistory config \<and> trim cmd \<noteq> []
        \<and> \<not> isSensitiveCommand new_RegExp cmd (sensitivePatterns config)
        \<and> (S = [] \<or> command (last S) \<noteq> cmd) \<longrightarrow>
      fst (addToHistory new_RegExp f now cmd S config w)
        = S @ [\<lparr>command = cmd, timestamp = now\<rparr>])"
  by (auto simp: addToHistory_def lastEntry_def Let_def)

theorem addToHistory_duplicate_witness:
  "addToHistory sampleCompiler noFaults 9 (js ''ls'')
       [\<lparr>command = js ''ls'', timestamp = 1\<rparr>] DEFAULT_HISTORY_CONFIG
       \<lparr>disk = NoDirectory, console = []\<rparr>
     = ([\<lparr>command = js ''ls'', timestamp = 1\<rparr>], \<lparr>disk = NoDirectory, console = []\<rparr>)
   \<and> fst (addToHistory sampleCompiler noFaults 9 (js ''ls'')
       [\<lparr>command = js ''ls'', timestamp = 1\<rparr>, \<lparr>command = js ''cd'', timestamp = 2\<rparr>]
       DEFAULT_HISTORY_CONFIG \<lparr>disk = NoDirectory, console = []\<rparr>)
     = [\<lparr>command = js ''ls'', timestamp = 1\<rparr>, \<lparr>command = js ''cd'', timestamp = 2\<rparr>,
        \<lparr>command = js ''ls'', timestamp = 9\<rparr>]"
proof -
  have n: "js ''cd'' \<noteq> js ''ls''" "trim (js ''ls'') \<noteq> []"
    by (simp_all add: js_def trim_def isWhiteSpace_def)
  have s: "\<not> isSensitiveCommand sampleCompiler (js ''ls'') (sensitivePatterns DEFAULT_HISTORY_CONFIG)"
    using sample_ls by (simp add: DEFAULT_HISTORY_CONFIG_def)
  have c: "saveHistory DEFAULT_HISTORY_CONFIG"
    by (simp add: DEFAULT_HISTORY_CONFIG_def)
  show ?thesis
    using n s c
      addToHistory_duplicate [of "[\<lparr>command = js ''ls'', timestamp = 1\<rparr>]" "js ''ls''"
        sampleCompiler noFaults 9 DEFAULT_HISTORY_CONFIG "\<lparr>disk = NoDirectory, console = []\<rparr>"]
      addToHistory_duplicate [of "[\<lparr>command = js ''ls'', timestamp = 1\<rparr>, \<lparr>command = js ''cd'', timestamp = 2\<rparr>]"
        "js ''ls''" sampleCompiler noFaults 9 DEFAULT_HISTORY_CONFIG "\<lparr>disk = NoDirectory, console = []\<rparr>"]
    by simp
qed

section \<open>Tokens of a serialized history\<close>

lemma tokenize_whiteSpace:
  "list_all isJsonWhiteSpace ws \<Longrightarrow> tokenize (ws @ rest) = tokenize rest"
  by (induction ws) simp_all

lemma tokenize_punctuation:
  "tokenize (0x5B # rest) = map_option (Cons LBracket) (tokenize rest)"
  "tokenize (0x5D # rest) = map_option (Cons RBracket) (tokenize rest)"
  "tokenize (0x7B # rest) = map_option (Cons LBrace) (tokenize rest)"
  "tokenize (0x7D # rest) = map_option (Cons RBrace) (tokenize rest)"
  "tokenize (0x2C # rest) = map_option (Cons Comma) (tokenize rest)"
  "tokenize (0x3A # rest) = map_option (Cons Colon) (tokenize rest)"
  "tokenize (0x0A # rest) = tokenize rest"
  "tokenize (0x20 # rest) = tokenize rest"
  by (simp_all add: isJsonWhiteSpace_def)

lemma tokenize_QuoteJSONString:
  "tokenize (QuoteJSONString s @ rest) = map_option (Cons (StringToken s)) (tokenize rest)"
proof -
  have "QuoteJSONString s @ rest = 0x22 # (quoteCodeUnits s @ 0x22 # rest)"
    by (simp add: QuoteJSONString_def)
  then show ?thesis
    by (simp add: lexString_quoteCodeUnits isJsonWhiteSpace_def del: lexString.simps)
qed

lemma numberToString_shape:
  obtains c cs where "numberToString t = c # cs" "c = 0x2D \<or> isDigit c" "list_all isNumberChar cs"
proof -
  have d: "list_all isNumberChar (digitsOf n)" for n
    using digitsOf_isDigit [of n] by (simp add: list_all_iff isNumberChar_def)
  show thesis
  proof (cases "t < 0")
    case True
    then have "numberToString t = 0x2D # digitsOf (nat (- t))"
      by (simp add: numberToString_def)
    then show ?thesis using that d by blast
  next
    case False
    obtain c cs where c: "digitsOf (nat t) = c # cs"
      using digitsOf_not_Nil [of "nat t"] by (cases "digitsOf (nat t)") auto
    then have "isDigit c" "list_all isNumberChar cs"
      using digitsOf_isDigit [of "nat t"] d [of "nat t"] by simp_all
    moreover have "numberToString t = c # cs"
      using False c by (simp add: numberToString_def)
    ultimately show ?thesis using that by blast
  qed
qed

lemma tokenize_numberToString:
  assumes "rest = [] \<or> \<not> isNumberChar (hd rest)"
  shows "tokenize (numberToString t @ rest)
           = map_option (Cons (Literal (JNumber (of_int t)))) (tokenize rest)"
proof -
  obtain c cs where n: "numberToString t = c # cs" and c: "c = 0x2D \<or> isDigit c"
    and cs: "list_all isNumberChar cs"
    by (rule numberToString_shape)
  have tw: "takeWhile isNumberChar (cs @ rest) = cs"
    using cs assms by (cases rest) (simp_all add: takeWhile_append2 list_all_iff takeWhile_all)
  have dw: "dropWhile isNumberChar (cs @ rest) = rest"
    using cs assms by (cases rest) (simp_all add: dropWhile_append2 list_all_iff dropWhile_all)
  have v: "numberValue (c # cs) = Some (of_int t)"
    using numberValue_numberToString [of t] n by simp
  have nc: "\<not> isJsonWhiteSpace c" "c \<noteq> 0x5B" "c \<noteq> 0x5D" "c \<noteq> 0x7B" "c \<noteq> 0x7D" "c \<noteq> 0x2C"
    "c \<noteq> 0x3A" "c \<noteq> 0x22"
    using c by (auto simp: isJsonWhiteSpace_def isDigit_def)
  show ?thesis
    unfolding n using c nc by (simp add: tw dw v)
qed

lemma tokenize_serializeMember_string:
  "tokenize (serializeMember gap key (QuoteJSONString s) @ rest)
     = map_option (\<lambda>ts. [StringToken key, Colon, StringToken s] @ ts) (tokenize rest)"
  by (simp add: serializeMember_def tokenize_QuoteJSONString tokenize_punctuation
        option.map_comp comp_def del: tokenize.simps(2))

lemma tokenize_serializeMember_number:
  "rest = [] \<or> \<not> isNumberChar (hd rest) \<Longrightarrow>
   tokenize (serializeMember gap key (numberToString t) @ rest)
     = map_option (\<lambda>ts. [StringToken key, Colon, Literal (JNumber (of_int t))] @ ts) (tokenize rest)"
  by (simp add: serializeMember_def tokenize_QuoteJSONString tokenize_punctuation
        tokenize_numberToString option.map_comp comp_def del: tokenize.simps(2))

lemma tokenize_serializeEntry:
  assumes "list_all isJsonWhiteSpace gap" "list_all isJsonWhiteSpace stepback"
  shows "tokenize (serializeEntry gap stepback e @ rest)
           = map_option (\<lambda>ts. entryTokens e @ ts) (tokenize rest)"
proof (cases "gap = []")
  case True
  have n: "\<not> isNumberChar 0x7D" by (simp add: isNumberChar_def isDigit_def)
  show ?thesis
    using True n
    by (simp add: serializeEntry_def serializeParts_def entryTokens_def
          tokenize_serializeMember_string tokenize_serializeMember_number tokenize_punctuation
          option.map_comp comp_def del: tokenize.simps(2))
next
  case False
  have n: "\<not> isNumberChar 0x0A" by (simp add: isNumberChar_def isDigit_def)
  have ws: "tokenize (stepback @ r) = tokenize r" "tokenize (gap @ r) = tokenize r" for r
    using assms by (simp_all add: tokenize_whiteSpace)
  show ?thesis
    using False n
    by (simp add: serializeEntry_def serializeParts_def entryTokens_def
          tokenize_serializeMember_string tokenize_serializeMember_number tokenize_punctuation
          ws option.map_comp comp_def del: tokenize.simps(2))
qed

lemma tokenize_joinWith:
  assumes "list_all isJsonWhiteSpace gap" "list_all isJsonWhiteSpace stepback"
    and sep: "\<And>r. tokenize (sep @ r) = map_option (Cons Comma) (tokenize r)"
  shows "tokenize (joinWith sep (map (serializeEntry gap stepback) h) @ rest)
           = map_option (\<lambda>ts. historyTokens h @ ts) (tokenize rest)"
proof (induction h rule: historyTokens.induct)
  case 1
  show ?case by (simp add: option.map_ident)
next
  case (2 e)
  show ?case by (simp add: tokenize_serializeEntry assms del: tokenize.simps(2))
next
  case (3 e e' es)
  then show ?case
    by (simp add: tokenize_serializeEntry assms option.map_comp comp_def del: tokenize.simps(2))
qed

lemma tokenize_serializeParts:
  assumes g: "list_all isJsonWhiteSpace gap"
  shows "tokenize (serializeParts 0x5B 0x5D gap [] (map (serializeEntry gap gap) h))
           = Some (LBracket # historyTokens h @ [RBracket])"
proof -
  have ws: "tokenize (gap @ r) = tokenize r" for r
    using g by (rule tokenize_whiteSpace)
  show ?thesis
  proof (cases "h = []")
    case True
    then show ?thesis by (simp add: serializeParts_def isJsonWhiteSpace_def)
  next
    case False
    show ?thesis
    proof (cases "gap = []")
      case True
      have sep: "tokenize ([0x2C] @ r) = map_option (Cons Comma) (tokenize r)" for r
        by (simp add: tokenize_punctuation del: tokenize.simps(2))
      have "tokenize (joinWith [0x2C] (map (serializeEntry gap gap) h) @ [0x5D])
              = map_option (\<lambda>ts. historyTokens h @ ts) (tokenize [0x5D])"
        using g g sep by (rule tokenize_joinWith)
      then show ?thesis
        using False True unfolding serializeParts_def
        by (simp add: tokenize_punctuation del: tokenize.simps(2))
    next
      case gap: False
      have sep: "tokenize (([0x2C, 0x0A] @ ([] @ gap)) @ r) = map_option (Cons Comma) (tokenize r)" for r
        by (simp add: tokenize_punctuation ws del: tokenize.simps(2))
      have "tokenize (joinWith ([0x2C, 0x0A] @ ([] @ gap)) (map (serializeEntry gap gap) h)
                @ [0x0A, 0x5D])
              = map_option (\<lambda>ts. historyTokens h @ ts) (tokenize [0x0A, 0x5D])"
        using g g sep by (rule tokenize_joinWith)
      then show ?thesis
        using False gap unfolding serializeParts_def
        by (simp add: tokenize_punctuation ws del: tokenize.simps(2))
    qed
  qed
qed

lemma tokenize_JSON_stringify:
  "tokenize (JSON_stringify h space) = Some (LBracket # historyTokens h @ [RBracket])"
proof -
  have "list_all isJsonWhiteSpace (replicate (min 10 space) (0x20 :: codeunit))"
    by (simp add: list_all_iff isJsonWhiteSpace_def)
  then show ?thesis
    unfolding JSON_stringify_def Let_def by (rule tokenize_serializeParts)
qed

section \<open>Parsing a serialized history\<close>

lemma parseTokens_append:
  "parseTokens p (ts @ us)
     = (case parseTokens p ts of None \<Rightarrow> None | Some p' \<Rightarrow> parseTokens p' us)"
  by (induction ts arbitrary: p) (auto split: option.splits)

lemma js_command_timestamp: "js ''command'' \<noteq> js ''timestamp''"
  by (simp add: js_def)

lemma parseTokens_entryTokens:
  "valueExpected st \<Longrightarrow> parseTokens (Parsing st) (entryTokens e) = deliver (entryValue e) st"
  by (simp add: entryTokens_def entryValue_def js_command_timestamp split: option.split)

lemma deliver_element:
  "deliver v (ArrayValue es # st) = Some (Parsing (ArrayNext (v # es) # st))"
  by simp

lemma parseTokens_more_entries:
  "parseTokens (Parsing (ArrayNext es # st)) (concat (map (\<lambda>e. Comma # entryTokens e) h) @ ts)
     = parseTokens (Parsing (ArrayNext (rev (map entryValue h) @ es) # st)) ts"
proof (induction h arbitrary: es)
  case Nil
  show ?case by simp
next
  case (Cons e h)
  have "parseTokens (Parsing (ArrayNext es # st)) (Comma # entryTokens e)
          = Some (Parsing (ArrayNext (entryValue e # es) # st))"
    by (simp add: parseTokens_entryTokens)
  then have "parseTokens (Parsing (ArrayNext es # st))
          ((Comma # entryTokens e) @ (concat (map (\<lambda>e. Comma # entryTokens e) h) @ ts))
        = parseTokens (Parsing (ArrayNext (entryValue e # es) # st))
            (concat (map (\<lambda>e. Comma # entryTokens e) h) @ ts)"
    by (simp only: parseTokens_append option.case)
  then show ?case
    using Cons.IH [of "entryValue e # es"] by simp
qed

lemma historyTokens_Cons:
  "historyTokens (e # h) = entryTokens e @ concat (map (\<lambda>e. Comma # entryTokens e) h)"
  by (induction h arbitrary: e) simp_all

lemma parseTokens_historyTokens:
  "parseTokens (Parsing []) (LBracket # historyTokens h @ [RBracket])
     = Some (Done (JArray (map entryValue h)))"
proof (cases h)
  case Nil
  then show ?thesis by simp
next
  case (Cons e h')
  have 1: "parseTokens (Parsing [ArrayFirst]) (entryTokens e)
          = Some (Parsing [ArrayNext [entryValue e]])"
    by (simp add: parseTokens_entryTokens)
  have 2: "parseTokens (Parsing [ArrayNext [entryValue e]])
             (concat (map (\<lambda>e. Comma # entryTokens e) h') @ [RBracket])
          = parseTokens (Parsing [ArrayNext (rev (map entryValue h') @ [entryValue e])]) [RBracket]"
    by (rule parseTokens_more_entries)
  have "parseTokens (Parsing [ArrayFirst])
          (entryTokens e @ (concat (map (\<lambda>e. Comma # entryTokens e) h') @ [RBracket]))
        = Some (Done (JArray (map entryValue (e # h'))))"
    using parseTokens_append [of "Parsing [ArrayFirst]" "entryTokens e"
        "concat (map (\<lambda>e. Comma # entryTokens e) h') @ [RBracket]"]
    by (simp add: 1 2 del: parseTokens.simps(2)) simp
  then show ?thesis
    using Cons by (simp add: historyTokens_Cons del: historyTokens.simps)
qed

lemma JSON_parse_stringify:
  "JSON_parse (JSON_stringify h space) = Inr (JArray (map entryValue h))"
  by (simp add: JSON_parse_def tokenize_JSON_stringify parseTokens_historyTokens
        del: parseTokens.simps)

section \<open>Properties of save and load\<close>

lemma Array_slice_negative:
  "0 < n \<Longrightarrow> Array_slice xs (- n) = truncated n xs"
proof -
  assume n: "0 < n"
  show ?thesis
  proof (cases "n < int (length xs)")
    case True
    then have "nat (int (length xs) - n) = length xs - nat n"
      using n by simp
    then show ?thesis
      using True n by (simp add: Array_slice_def truncated_def lastEntries_def take_rev Let_def)
  next
    case False
    then show ?thesis
      using n by (simp add: Array_slice_def truncated_def Let_def)
  qed
qed

lemma length_truncated: "0 < n \<Longrightarrow> int (length (truncated n xs)) \<le> n"
  by (simp add: truncated_def lastEntries_def)

lemma saveCommandHistory_try_ok:
  "\<not> mkdirFails f \<Longrightarrow> writeOutcome f = Written \<Longrightarrow>
   saveCommandHistory_try f history config d
     = (None, Directory (Some (JSON_stringify (Array_slice history (- maxSize config)) 2)))"
  by (cases d) (simp_all add: saveCommandHistory_try_def fs_mkdir_def fs_writeFile_def)

lemma disk_saveCommandHistory_ok:
  "\<not> mkdirFails f \<Longrightarrow> writeOutcome f = Written \<Longrightarrow>
   disk (saveCommandHistory f history config w)
     = Directory (Some (JSON_stringify (Array_slice history (- maxSize config)) 2))"
  by (simp add: saveCommandHistory_def saveCommandHistory_try_ok)

lemma loadCommandHistory_content:
  "disk w = Directory (Some content) \<Longrightarrow> \<not> readFails f \<Longrightarrow> JSON_parse content = Inr v \<Longrightarrow>
   loadCommandHistory f w = ((case v of JArray xs \<Rightarrow> xs | _ \<Rightarrow> []), w)"
  by (cases v)
     (simp_all add: loadCommandHistory_def loadCommandHistory_try_def existsSync_def
        fs_readFile_def Array_isArray_def elements_def)

text \<open>
  Claim C1. For every sequence and every config with a positive \<open>maxSize\<close>, after a save
  without I/O error the file holds the serialization of the last \<open>maxSize\<close> entries of the
  sequence when it has more than \<open>maxSize\<close>, and of the whole sequence otherwise; the text
  parses to exactly these entries in their order, and they are at most \<open>maxSize\<close>.
\<close>

theorem saveCommandHistory_persists_last:
  assumes "0 < maxSize config" "\<not> mkdirFails f" "writeOutcome f = Written"
  shows "fileOf (disk (saveCommandHistory f S config w))
           = Some (JSON_stringify (truncated (maxSize config) S) 2)
         \<and> JSON_parse (JSON_stringify (truncated (maxSize config) S) 2)
           = Inr (JArray (map entryValue (truncated (maxSize config) S)))
         \<and> int (length (truncated (maxSize config) S)) \<le> maxSize config"
  using assms
  by (simp add: disk_saveCommandHistory_ok Array_slice_negative fileOf_def JSON_parse_stringify
        length_truncated)

text \<open>
  Claim C3. Round trip: for every sequence and every config with a positive \<open>maxSize\<close>,
  when the save and the load that follows meet no I/O error, the load returns the sequence
  truncated to its last \<open>maxSize\<close> entries.
\<close>

theorem load_after_save:
  assumes "0 < maxSize config" "\<not> mkdirFails f" "writeOutcome f = Written" "\<not> readFails f'"
  shows "fst (loadCommandHistory f' (saveCommandHistory f S config w))
           = map entryValue (truncated (maxSize config) S)"
proof -
  have "disk (saveCommandHistory f S config w)
          = Directory (Some (JSON_stringify (truncated (maxSize config) S) 2))"
    using assms by (simp add: disk_saveCommandHistory_ok Array_slice_negative)
  then show ?thesis
    using assms(4) JSON_parse_stringify [of "truncated (maxSize config) S" 2]
    by (simp add: loadCommandHistory_content)
qed

text \<open>
  Claim C4. No error of \<open>loadCommandHistory\<close> reaches the caller: whatever the body of
  the \<^verbatim>\<open>try\<close> throws, the result is the empty sequence; and so it is when the file
  is absent, when it cannot be read, when its content is not valid JSON, and when the
  content parses to a value that is not an array.
\<close>

theorem loadCommandHistory_recovers:
  "(loadCommandHistory_try f (disk w) = Inl e \<longrightarrow> fst (loadCommandHistory f w) = [])
   \<and> (fileOf (disk w) = None \<longrightarrow> fst (loadCommandHistory f w) = [])
   \<and> (readFails f \<longrightarrow> fst (loadCommandHistory f w) = [])
   \<and> (fileOf (disk w) = Some content \<and> JSON_parse content = Inl e \<longrightarrow>
        fst (loadCommandHistory f w) = [])
   \<and> (fileOf (disk w) = Some content \<and> JSON_parse content = Inr v \<and> \<not> Array_isArray v \<longrightarrow>
        fst (loadCommandHistory f w) = [])"
  by (auto simp: loadCommandHistory_def loadCommandHistory_try_def existsSync_def fileOf_def
        fs_readFile_def split: disk.splits option.splits sum.splits)

text \<open>
  Claim C10. No element is validated: when the content of the file parses to an array,
  \<open>loadCommandHistory\<close> returns the elements of that array as they were parsed, whatever
  their shape, and leaves the world as it was; a parsed value that is not an array gives
  the empty sequence.
\<close>

theorem loadCommandHistory_verbatim:
  "fileOf (disk w) = Some content \<Longrightarrow> \<not> readFails f \<Longrightarrow> JSON_parse content = Inr v \<Longrightarrow>
   loadCommandHistory f w = ((case v of JArray xs \<Rightarrow> xs | _ \<Rightarrow> []), w)"
  by (cases "disk w") (simp_all add: fileOf_def loadCommandHistory_content)

section \<open>Properties of clear, and of save under failure\<close>

lemma parse_not_json: "JSON_parse (js ''not json'') = Inl SyntaxError"
  by code_simp

lemma parse_object: "JSON_parse (js ''{}'') = Inr (JObject [])"
  by code_simp

lemma parse_array_of_object: "JSON_parse (js ''[{}]'') = Inr (JArray [JObject []])"
  by code_simp

lemma parse_prefixes_of_empty_array:
  "JSON_parse [] = Inl SyntaxError" "JSON_parse [0x5B] = Inl SyntaxError"
  "JSON_parse [0x5B, 0x5D] = Inr (JArray [])"
  by (simp_all add: JSON_parse_def isJsonWhiteSpace_def)

lemma JSON_stringify_empty: "JSON_stringify [] space = [0x5B, 0x5D]"
  by (simp add: JSON_stringify_def serializeParts_def)

lemma take_1_JSON_stringify: "take (Suc 0) (JSON_stringify (e # es) space) = [0x5B]"
  by (simp add: JSON_stringify_def serializeParts_def Let_def)

lemma length_JSON_stringify: "2 \<le> length (JSON_stringify h space)"
  by (simp add: JSON_stringify_def serializeParts_def Let_def)

text \<open>
  Claim C8 as stated fails: when the write of \<open>clearCommandHistory\<close> fails before the file
  is opened, the error is logged, the file keeps its entries, and the load that follows
  returns them.
\<close>

theorem clear_then_load_counterexample:
  "fst (loadCommandHistory noFaults
         (clearCommandHistory (noFaults\<lparr>writeOutcome := NotOpened\<rparr>)
            (sampleWorld (JSON_stringify [sampleEntry] 2))))
     = [entryValue sampleEntry]
   \<and> [entryValue sampleEntry] \<noteq> []"
proof -
  have "clearCommandHistory (noFaults\<lparr>writeOutcome := NotOpened\<rparr>)
            (sampleWorld (JSON_stringify [sampleEntry] 2))
        = console_error ''Failed to clear command history:''
            (sampleWorld (JSON_stringify [sampleEntry] 2))"
    by (simp add: clearCommandHistory_def clearCommandHistory_try_def existsSync_def
          sampleWorld_def fs_writeFile_def noFaults_def)
  then show ?thesis
    by (simp add: loadCommandHistory_content [where content = "JSON_stringify [sampleEntry] 2"
            and v = "JArray [entryValue sampleEntry]"]
          console_error_def sampleWorld_def noFaults_def JSON_parse_stringify)
qed

text \<open>
  Claim C8, amended. \<open>clearCommandHistory\<close> is a no-op when the file is absent and
  overwrites the file with an empty JSON array when the file exists and the write succeeds;
  a load after the clear returns the empty sequence whenever the file was absent or the
  write did not fail with the file left as it was. No error reaches the caller: the result
  is a world in every case.
\<close>

theorem clearCommandHistory_then_load:
  "(fileOf (disk w) = None \<longrightarrow> clearCommandHistory f w = w)
   \<and> (fileOf (disk w) \<noteq> None \<and> writeOutcome f = Written \<longrightarrow>
        fileOf (disk (clearCommandHistory f w)) = Some (js ''[]''))
   \<and> (fileOf (disk w) = None \<or> writeOutcome f \<noteq> NotOpened \<longrightarrow>
        fst (loadCommandHistory f' (clearCommandHistory f w)) = [])"
proof (cases "disk w")
  case NoDirectory
  then show ?thesis
    by (simp add: clearCommandHistory_def clearCommandHistory_try_def existsSync_def fileOf_def
          loadCommandHistory_def loadCommandHistory_try_def)
next
  case (Directory entry)
  show ?thesis
  proof (cases entry)
    case None
    then show ?thesis
      using Directory
      by (simp add: clearCommandHistory_def clearCommandHistory_try_def existsSync_def fileOf_def
            loadCommandHistory_def loadCommandHistory_try_def)
  next
    case (Some content)
    have e: "existsSync (disk w)" "fileOf (disk w) = Some content"
      using Directory Some by (simp_all add: existsSync_def fileOf_def)
    show ?thesis
    proof (cases "writeOutcome f")
      case Written
      then have d: "disk (clearCommandHistory f w) = Directory (Some [0x5B, 0x5D])"
        using Directory Some
        by (simp add: clearCommandHistory_def clearCommandHistory_try_def existsSync_def
              fs_writeFile_def JSON_stringify_empty)
      have "fst (loadCommandHistory f' (clearCommandHistory f w)) = []"
        using d
        by (auto simp: loadCommandHistory_def loadCommandHistory_try_def existsSync_def
              fs_readFile_def parse_prefixes_of_empty_array Array_isArray_def elements_def)
      moreover have "fileOf (disk (clearCommandHistory f w)) = Some (js ''[]'')"
        using d by (simp add: fileOf_def js_def)
      ultimately show ?thesis
        using e Written by simp
    next
      case NotOpened
      then show ?thesis using e by simp
    next
      case (Interrupted n)
      then have d: "disk (clearCommandHistory f w) = Directory (Some (take n [0x5B, 0x5D]))"
        using Directory Some
        by (simp add: clearCommandHistory_def clearCommandHistory_try_def existsSync_def
              fs_writeFile_def JSON_stringify_empty console_error_def)
      consider "n = 0" | "n = 1" | "2 \<le> n" by linarith
      then have "take n [0x5B, 0x5D :: codeunit] = [] \<or> take n [0x5B, 0x5D :: codeunit] = [0x5B]
          \<or> take n [0x5B, 0x5D :: codeunit] = [0x5B, 0x5D]"
        by cases simp_all
      then have "fst (loadCommandHistory f' (clearCommandHistory f w)) = []"
        using d
        by (auto simp: loadCommandHistory_def loadCommandHistory_try_def existsSync_def
              fs_readFile_def parse_prefixes_of_empty_array Array_isArray_def elements_def)
      then show ?thesis
        using e Interrupted by simp
    qed
  qed
qed

text \<open>
  Claim C9 as stated fails: a write that is interrupted after the first code unit leaves a
  file that holds neither its previous content nor the new document.
\<close>

theorem saveCommandHistory_partial_counterexample:
  "fileOf (disk (saveCommandHistory (noFaults\<lparr>writeOutcome := Interrupted 1\<rparr>) [sampleEntry]
                   DEFAULT_HISTORY_CONFIG (sampleWorld (js ''[]''))))
     = Some (js ''['')
   \<and> js ''['' \<noteq> js ''[]''
   \<and> js ''['' \<noteq> JSON_stringify (Array_slice [sampleEntry] (- maxSize DEFAULT_HISTORY_CONFIG)) 2"
proof -
  have s: "Array_slice [sampleEntry] (- maxSize DEFAULT_HISTORY_CONFIG) = [sampleEntry]"
    by (simp add: Array_slice_def DEFAULT_HISTORY_CONFIG_def DEFAULT_HISTORY_SIZE_def)
  have "length (js ''['') \<noteq> length (JSON_stringify [sampleEntry] 2)"
    using length_JSON_stringify [of "[sampleEntry]" 2] by (simp add: js_def)
  then have "js ''['' \<noteq> JSON_stringify [sampleEntry] 2"
    by metis
  then show ?thesis
    by (simp add: saveCommandHistory_def saveCommandHistory_try_def fs_mkdir_def fs_writeFile_def
          sampleWorld_def noFaults_def s take_1_JSON_stringify fileOf_def js_def
          console_error_def)
qed

text \<open>
  Claim C9, amended. \<open>saveCommandHistory\<close> writes the whole document over the file: with
  no failure the file holds the complete new document; when the directory cannot be made
  or the file cannot be opened the file is as it was before; when the write is interrupted
  the file holds the part of the new document that was written, a prefix of it.
\<close>

theorem saveCommandHistory_file_after:
  "(mkdirFails f \<or> writeOutcome f = NotOpened \<longrightarrow>
      fileOf (disk (saveCommandHistory f S config w)) = fileOf (disk w))
   \<and> (\<not> mkdirFails f \<and> writeOutcome f = Written \<longrightarrow>
      fileOf (disk (saveCommandHistory f S config w))
        = Some (JSON_stringify (Array_slice S (- maxSize config)) 2))
   \<and> (\<not> mkdirFails f \<and> writeOutcome f = Interrupted n \<longrightarrow>
      fileOf (disk (saveCommandHistory f S config w))
        = Some (take n (JSON_stringify (Array_slice S (- maxSize config)) 2)))"
  by (cases "disk w")
     (auto simp: saveCommandHistory_def saveCommandHistory_try_def fs_mkdir_def fs_writeFile_def
        fileOf_def console_error_def)

section \<open>Examples of save, load and clear\<close>

lemma truncated_sample:
  "truncated (maxSize sampleConfig) sampleHistory
     = [\<lparr>command = js ''cd'', timestamp = 2\<rparr>, \<lparr>command = js ''ls'', timestamp = 3\<rparr>]"
  by (simp add: truncated_def lastEntries_def sampleConfig_def sampleHistory_def)

theorem saveCommandHistory_persists_last_witness:
  "0 < maxSize sampleConfig \<and> \<not> mkdirFails noFaults \<and> writeOutcome noFaults = Written
   \<and> fileOf (disk (saveCommandHistory noFaults sampleHistory sampleConfig
                     \<lparr>disk = NoDirectory, console = []\<rparr>))
       = Some (JSON_stringify
                 [\<lparr>command = js ''cd'', timestamp = 2\<rparr>, \<lparr>command = js ''ls'', timestamp = 3\<rparr>] 2)
   \<and> JSON_parse (JSON_stringify
                 [\<lparr>command = js ''cd'', timestamp = 2\<rparr>, \<lparr>command = js ''ls'', timestamp = 3\<rparr>] 2)
       = Inr (JArray (map entryValue
                 [\<lparr>command = js ''cd'', timestamp = 2\<rparr>, \<lparr>command = js ''ls'', timestamp = 3\<rparr>]))"
proof -
  have h: "0 < maxSize sampleConfig" "\<not> mkdirFails noFaults" "writeOutcome noFaults = Written"
    by (simp_all add: sampleConfig_def noFaults_def)
  show ?thesis
    using h saveCommandHistory_persists_last [OF h, of sampleHistory "\<lparr>disk = NoDirectory, console = []\<rparr>"]
    by (simp add: truncated_sample)
qed

theorem load_after_save_witness:
  "0 < maxSize sampleConfig \<and> \<not> mkdirFails noFaults \<and> writeOutcome noFaults = Written
   \<and> \<not> readFails noFaults
   \<and> fst (loadCommandHistory noFaults
            (saveCommandHistory noFaults sampleHistory sampleConfig
               \<lparr>disk = NoDirectory, console = []\<rparr>))
       = [entryValue \<lparr>command = js ''cd'', timestamp = 2\<rparr>,
          entryValue \<lparr>command = js ''ls'', timestamp = 3\<rparr>]"
proof -
  have h: "0 < maxSize sampleConfig" "\<not> mkdirFails noFaults" "writeOutcome noFaults = Written"
    "\<not> readFails noFaults"
    by (simp_all add: sampleConfig_def noFaults_def)
  show ?thesis
    using h load_after_save [OF h, of sampleHistory "\<lparr>disk = NoDirectory, console = []\<rparr>"]
    by (simp add: truncated_sample)
qed

theorem loadCommandHistory_recovers_witness:
  "fst (loadCommandHistory noFaults \<lparr>disk = NoDirectory, console = []\<rparr>) = []
   \<and> fst (loadCommandHistory (noFaults\<lparr>readFails := True\<rparr>) (sampleWorld (js ''[{}]''))) = []
   \<and> JSON_parse (js ''not json'') = Inl SyntaxError
   \<and> fst (loadCommandHistory noFaults (sampleWorld (js ''not json''))) = []
   \<and> JSON_parse (js ''{}'') = Inr (JObject []) \<and> \<not> Array_isArray (JObject [])
   \<and> fst (loadCommandHistory noFaults (sampleWorld (js ''{}''))) = []"
proof -
  have a: "fileOf (disk \<lparr>disk = NoDirectory, console = []\<rparr>) = None"
    by (simp add: fileOf_def)
  have b: "readFails (noFaults\<lparr>readFails := True\<rparr>)"
    by simp
  have c: "fileOf (disk (sampleWorld content)) = Some content" for content
    by (simp add: fileOf_def sampleWorld_def)
  have d: "\<not> Array_isArray (JObject [])"
    by (simp add: Array_isArray_def)
  show ?thesis
    using a b c d parse_not_json parse_object
      loadCommandHistory_recovers [of noFaults "\<lparr>disk = NoDirectory, console = []\<rparr>"]
      loadCommandHistory_recovers [of "noFaults\<lparr>readFails := True\<rparr>" "sampleWorld (js ''[{}]'')"]
      loadCommandHistory_recovers [of noFaults "sampleWorld (js ''not json'')" SyntaxError
        "js ''not json''"]
      loadCommandHistory_recovers [of noFaults "sampleWorld (js ''{}'')" _ "js ''{}''" "JObject []"]
    by simp
qed

theorem loadCommandHistory_verbatim_witness:
  "fileOf (disk (sampleWorld (js ''[{}]''))) = Some (js ''[{}]'') \<and> \<not> readFails noFaults
   \<and> JSON_parse (js ''[{}]'') = Inr (JArray [JObject []])
   \<and> loadCommandHistory noFaults (sampleWorld (js ''[{}]''))
       = ([JObject []], sampleWorld (js ''[{}]''))"
proof -
  have h: "fileOf (disk (sampleWorld (js ''[{}]''))) = Some (js ''[{}]'')" "\<not> readFails noFaults"
    by (simp_all add: fileOf_def sampleWorld_def noFaults_def)
  show ?thesis
    using h parse_array_of_object loadCommandHistory_verbatim [OF h parse_array_of_object]
    by simp
qed

theorem clearCommandHistory_then_load_witness:
  "clearCommandHistory noFaults \<lparr>disk = NoDirectory, console = []\<rparr>
     = \<lparr>disk = NoDirectory, console = []\<rparr>
   \<and> fileOf (disk (clearCommandHistory noFaults (sampleWorld (JSON_stringify [sampleEntry] 2))))
       = Some (js ''[]'')
   \<and> fst (loadCommandHistory noFaults
            (clearCommandHistory noFaults (sampleWorld (JSON_stringify [sampleEntry] 2)))) = []
   \<and> fst (loadCommandHistory noFaults
            (clearCommandHistory (noFaults\<lparr>writeOutcome := Interrupted 1\<rparr>)
               (sampleWorld (JSON_stringify [sampleEntry] 2)))) = []"
proof -
  have a: "fileOf (disk \<lparr>disk = NoDirectory, console = []\<rparr>) = None"
    by (simp add: fileOf_def)
  have b: "fileOf (disk (sampleWorld (JSON_stringify [sampleEntry] 2))) \<noteq> None"
    by (simp add: fileOf_def sampleWorld_def)
  have c: "writeOutcome noFaults = Written"
    "writeOutcome (noFaults\<lparr>writeOutcome := Interrupted 1\<rparr>) \<noteq> NotOpened"
    by (simp_all add: noFaults_def)
  show ?thesis
    using a b c
      clearCommandHistory_then_load [of "\<lparr>disk = NoDirectory, console = []\<rparr>" noFaults noFaults]
      clearCommandHistory_then_load [of "sampleWorld (JSON_stringify [sampleEntry] 2)" noFaults noFaults]
      clearCommandHistory_then_load [of "sampleWorld (JSON_stringify [sampleEntry] 2)"
        "noFaults\<lparr>writeOutcome := Interrupted 1\<rparr>" noFaults]
    by simp
qed

theorem saveCommandHistory_file_after_witness:
  "fileOf (disk (saveCommandHistory (noFaults\<lparr>writeOutcome := NotOpened\<rparr>) sampleHistory sampleConfig
                   (sampleWorld (js ''[]''))))
     = Some (js ''[]'')
   \<and> fileOf (disk (saveCommandHistory noFaults sampleHistory sampleConfig (sampleWorld (js ''[]''))))
     = Some (JSON_stringify (Array_slice sampleHistory (- maxSize sampleConfig)) 2)
   \<and> fileOf (disk (saveCommandHistory (noFaults\<lparr>writeOutcome := Interrupted 1\<rparr>) sampleHistory
                     sampleConfig (sampleWorld (js ''[]''))))
     = Some (take 1 (JSON_stringify (Array_slice sampleHistory (- maxSize sampleConfig)) 2))"
proof -
  have a: "writeOutcome (noFaults\<lparr>writeOutcome := NotOpened\<rparr>) = NotOpened"
    "\<not> mkdirFails noFaults" "writeOutcome noFaults = Written"
    "\<not> mkdirFails (noFaults\<lparr>writeOutcome := Interrupted 1\<rparr>)"
    "writeOutcome (noFaults\<lparr>writeOutcome := Interrupted 1\<rparr>) = Interrupted 1"
    by (simp_all add: noFaults_def)
  have b: "fileOf (disk (sampleWorld (js ''[]''))) = Some (js ''[]'')"
    by (simp add: fileOf_def sampleWorld_def)
  show ?thesis
    using a b
      saveCommandHistory_file_after [of "noFaults\<lparr>writeOutcome := NotOpened\<rparr>" sampleHistory
        sampleConfig "sampleWorld (js ''[]'')"]
      saveCommandHistory_file_after [of noFaults sampleHistory sampleConfig "sampleWorld (js ''[]'')"]
      saveCommandHistory_file_after [of "noFaults\<lparr>writeOutcome := Interrupted 1\<rparr>" sampleHistory
        sampleConfig "sampleWorld (js ''[]'')" 1]
    by simp
qed

end
